theory Spec2Isabelle
  imports Main "HOL-Library.Char_ord" "HOL-Library.List_Lexorder" "HOL-Library.AList"
    "HOL-Library.Multiset"
begin

section \<open>Strings, integers and the two regular expressions of \<open>deploy.py\<close>\<close>

text \<open>
  Python strings are modelled as \<open>string\<close> (lists of 8-bit characters), compared with
  the lexicographic order of \<open>HOL-Library.List_Lexorder\<close> over the character codes of
  \<open>HOL-Library.Char_ord\<close>, which is how Python orders \<open>str\<close> values. The model
  is one of ASCII text: the class \<open>\d\<close> is the ten ASCII digits and white space is
  ASCII white space (Python also takes the decimal digits and spaces of other scripts).
\<close>

definition is_digit :: "char \<Rightarrow> bool" where
  "is_digit c = (c \<in> set ''0123456789'')"

definition digit_val :: "char \<Rightarrow> nat" where
  "digit_val c = of_char c - 48"

definition digit_char :: "nat \<Rightarrow> char" where
  "digit_char d = ''0123456789'' ! d"

text \<open>\<open>int(s)\<close> on a string of digits, as used on the groups of a successful match.\<close>

definition int_of_digits :: "string \<Rightarrow> nat" where
  "int_of_digits ds = foldl (\<lambda>a c. 10 * a + digit_val c) 0 ds"

text \<open>
  \<open>int(s)\<close> on a piece of a catalog key: a non-empty run of digits gives its value,
  anything else is the \<open>ValueError\<close> branch (\<open>None\<close>).
\<close>

definition py_int :: "string \<Rightarrow> nat option" where
  "py_int s = (if s \<noteq> [] \<and> list_all is_digit s then Some (int_of_digits s) else None)"

text \<open>The decimal rendering of an integer in an f-string, \<open>f"{n}"\<close>.\<close>

fun str_nat :: "nat \<Rightarrow> string" where
  "str_nat n = (if n < 10 then [digit_char n] else str_nat (n div 10) @ [digit_char (n mod 10)])"

declare str_nat.simps [simp del]

text \<open>\<open>s.split(sep)\<close> for a one-character separator, and \<open>sep.join(parts)\<close>.\<close>

fun split_on :: "char \<Rightarrow> string \<Rightarrow> string list" where
  "split_on sep [] = [[]]"
| "split_on sep (c # cs) =
     (if c = sep then [] # split_on sep cs
      else (case split_on sep cs of [] \<Rightarrow> [[c]] | p # ps \<Rightarrow> (c # p) # ps))"

fun join :: "string \<Rightarrow> string list \<Rightarrow> string" where
  "join sep [] = []"
| "join sep [p] = p"
| "join sep (p # q # ps) = p @ sep @ join sep (q # ps)"

text \<open>
  \<open>re.match(r'(\d+)\.(\d+)(?:\.(\d+))?', s)\<close>: the match is anchored at the start of
  \<open>s\<close> only. The greedy \<open>\d+\<close> takes the whole leading run of digits (giving back
  digits cannot help, since a digit would then have to match the dot), a dot follows, and
  the second group is the whole run of digits after the dot. The optional third group
  never makes the match fail and is not read by the caller. The result is groups 1 and 2.
\<close>

definition match_request :: "string \<Rightarrow> (string \<times> string) option" where
  "match_request s =
     (let g1 = takeWhile is_digit s; r1 = dropWhile is_digit s in
      if g1 = [] then None
      else (case r1 of
              [] \<Rightarrow> None
            | c # r2 \<Rightarrow>
                if c = CHR ''.'' \<and> takeWhile is_digit r2 \<noteq> []
                then Some (g1, takeWhile is_digit r2) else None))"

text \<open>
  The text matched by \<open>\d+\.\d+(?:\.\d+)?\<close> at the start of \<open>s\<close>: the two groups
  above and, when a dot and at least one digit follow, that dot and the run of digits.
\<close>

definition match_version_text :: "string \<Rightarrow> string option" where
  "match_version_text s =
     (case match_request s of
        None \<Rightarrow> None
      | Some (g1, g2) \<Rightarrow>
          (case drop (length g1 + 1 + length g2) s of
             [] \<Rightarrow> Some (g1 @ ''.'' @ g2)
           | c # r \<Rightarrow>
               if c = CHR ''.'' \<and> takeWhile is_digit r \<noteq> []
               then Some (g1 @ ''.'' @ g2 @ ''.'' @ takeWhile is_digit r)
               else Some (g1 @ ''.'' @ g2)))"

text \<open>
  \<open>re.search(r'cpython-(\d+\.\d+(?:\.\d+)?)', name)\<close>: the leftmost position at which
  the literal \<open>cpython-\<close> is followed by a version; the result is group 1.
\<close>

fun search_cpython :: "string \<Rightarrow> string option" where
  "search_cpython [] = None"
| "search_cpython (c # cs) =
     (if take 8 (c # cs) = ''cpython-''
      then (case match_version_text (drop 8 (c # cs)) of
              Some ver \<Rightarrow> Some ver
            | None \<Rightarrow> search_cpython cs)
      else search_cpython cs)"

section \<open>The version catalog\<close>

text \<open>
  A catalog is the dict \<open>available_versions\<close>: short version \<open>major.minor\<close> to the
  pair of full version and build date. It is an association list with distinct keys in
  insertion order; \<open>AList.update\<close> is dict assignment.
\<close>

type_synonym version_info = "string \<times> string option"
type_synonym catalog = "(string \<times> version_info) list"

definition linux_versions :: catalog where
  "linux_versions =
     [(''3.13'', (''3.13.0'', Some ''20241016'')),
      (''3.12'', (''3.12.7'', Some ''20241016'')),
      (''3.11'', (''3.11.10'', Some ''20240909'')),
      (''3.10'', (''3.10.15'', Some ''20240909''))]"

text \<open>
  The loop over \<open>base_path.glob("cpython-*")\<close>. The folder names come in the order the
  directory is listed; a later folder with the same short version replaces the entry.
\<close>

fun scan_folders :: "string list \<Rightarrow> catalog \<Rightarrow> catalog" where
  "scan_folders [] av = av"
| "scan_folders (name # names) av =
     (case search_cpython name of
        None \<Rightarrow> scan_folders names av
      | Some ver \<Rightarrow>
          scan_folders names
            (AList.update (join ''.'' (take 2 (split_on CHR ''.'' ver))) (ver, None) av))"

definition glob_cpython :: "string list \<Rightarrow> string list" where
  "glob_cpython names = filter (\<lambda>n. take 8 n = ''cpython-'') names"

text \<open>
  \<open>roaming\<close> is the listing of the one directory of \<open>base_paths\<close>
  (\<open>C:/Users/<USERNAME>/AppData/Roaming/uv/python\<close>), \<open>None\<close> when it does not exist.
\<close>

definition available_versions :: "string \<Rightarrow> string list option \<Rightarrow> catalog" where
  "available_versions target_os roaming =
     (if target_os = ''linux'' then linux_versions
      else (case roaming of
              None \<Rightarrow> []
            | Some names \<Rightarrow> scan_folders (glob_cpython names) []))"

section \<open>The local state\<close>

text \<open>
  The working directory of the tool is a map from relative path to node. A directory
  tree (an extracted archive) is kept flat, as the list of its files by relative path.
  \<open>fetched\<close> records every URL handed to \<open>urlretrieve\<close>, in order.
  \<open>deploy_dir\<close> is the staging directory of the assembly in progress, by entry name
  in the order of creation. File modes are not part of the state, and directories are
  there when something is written into them (\<open>download_uv\<close> creates \<open>cache\<close> before
  anything is put there). An operation on files raises where the definitions below say
  so: a source that is missing or of the wrong kind, a destination that exists.
\<close>

datatype node = File string | Tree "(string \<times> string) list"

record world =
  files :: "string \<Rightarrow> node option"
  fetched :: "string list"
  deploy_dir :: "(string \<times> node) list"

datatype exn = ValueError | KeyError | TypeError | AttributeError | TOMLDecodeError
  | URLError | BadArchive
  | FileNotFoundError | FileExistsError | IsADirectoryError | NotADirectoryError

datatype pyval = PNone | PStr string | PInfo string "string option"

definition fallback_path :: "string \<Rightarrow> string" where
  "fallback_path project_name = ''cache/.python_fallback_'' @ project_name"

definition path_exists :: "world \<Rightarrow> string \<Rightarrow> bool" where
  "path_exists w p = (files w p \<noteq> None)"

definition write_text :: "string \<Rightarrow> string \<Rightarrow> world \<Rightarrow> world" where
  "write_text p txt w = w\<lparr>files := (files w)(p \<mapsto> File txt)\<rparr>"

definition unlink :: "string \<Rightarrow> world \<Rightarrow> world" where
  "unlink p w = w\<lparr>files := (files w)(p := None)\<rparr>"

section \<open>\<open>OrbitDeployer.find_best_python_version\<close>\<close>

text \<open>\<open>v_major, v_minor = map(int, v_short.split('.'))\<close>; \<open>None\<close> is \<open>ValueError\<close>.\<close>

definition parse_key :: "string \<Rightarrow> (nat \<times> nat) option" where
  "parse_key v_short =
     (case map py_int (split_on CHR ''.'' v_short) of
        [Some a, Some b] \<Rightarrow> Some (a, b)
      | _ \<Rightarrow> None)"

definition is_lower :: "nat \<times> nat \<Rightarrow> nat \<times> nat \<Rightarrow> bool" where
  "is_lower v r = (fst v < fst r \<or> (fst v = fst r \<and> snd v < snd r))"

text \<open>
  The \<open>for\<close> loop with its \<open>break\<close>: the first item whose key is lower than the
  request, \<open>None\<close> when the loop runs to its end.
\<close>

fun first_lower :: "nat \<times> nat \<Rightarrow> catalog \<Rightarrow> exn + (string \<times> version_info) option" where
  "first_lower r [] = Inr None"
| "first_lower r ((v_short, v_info) # rest) =
     (case parse_key v_short of
        None \<Rightarrow> Inl ValueError
      | Some v \<Rightarrow> if is_lower v r then Inr (Some (v_short, v_info)) else first_lower r rest)"

text \<open>\<open>sorted(available_versions.items(), reverse=True)\<close>: the keys are distinct, so the
  items are ordered by key alone, as strings.\<close>

definition sorted_items_reverse :: "catalog \<Rightarrow> catalog" where
  "sorted_items_reverse av = rev (sort_key fst av)"

definition fallback_text :: "string \<Rightarrow> string \<Rightarrow> string \<Rightarrow> string" where
  "fallback_text requested_version fallback_version now =
     requested_version @ ''|'' @ fallback_version @ ''|'' @ now"

definition info_val :: "version_info \<Rightarrow> pyval" where
  "info_val i = PInfo (fst i) (snd i)"

text \<open>Lines 179 to 184: the match and the two \<open>int\<close> conversions.\<close>

definition parse_request :: "string \<Rightarrow> (nat \<times> nat) option" where
  "parse_request requested_version =
     (case match_request requested_version of
        None \<Rightarrow> None
      | Some (g1, g2) \<Rightarrow> Some (int_of_digits g1, int_of_digits g2))"

text \<open>\<open>f"{major}.{minor}"\<close>.\<close>

definition short_version :: "nat \<times> nat \<Rightarrow> string" where
  "short_version v = str_nat (fst v) @ ''.'' @ str_nat (snd v)"

text \<open>
  \<open>now\<close> is \<open>datetime.now().isoformat()\<close> at the time of the call. The result is the
  returned pair, or the exception that leaves the function, with the state after it.
\<close>

definition find_best_python_version ::
  "string \<Rightarrow> string list option \<Rightarrow> string \<Rightarrow> string \<Rightarrow> string \<Rightarrow> world
     \<Rightarrow> (exn + pyval \<times> pyval) \<times> world" where
  "find_best_python_version project_name roaming now requested_version target_os w =
     (case parse_request requested_version of
        None \<Rightarrow> (Inr (PStr requested_version, PStr requested_version), w)
      | Some r \<Rightarrow>
          (let av = available_versions target_os roaming;
               requested_short = short_version r
           in case map_of av requested_short of
                Some info \<Rightarrow> (Inr (PStr requested_short, info_val info), w)
              | None \<Rightarrow>
                  (case first_lower r (sorted_items_reverse av) of
                     Inl e \<Rightarrow> (Inl e, w)
                   | Inr None \<Rightarrow> (Inr (PNone, PNone), w)
                   | Inr (Some (fallback_version, fallback_info)) \<Rightarrow>
                       if fallback_version \<noteq> []
                       then (Inr (PStr fallback_version, info_val fallback_info),
                             write_text (fallback_path project_name)
                               (fallback_text requested_version fallback_version now) w)
                       else (Inr (PNone, PNone), w))))"

section \<open>More string operations\<close>

text \<open>\<open>s.lower()\<close>, \<open>s.strip()\<close> and \<open>s.replace(old, new)\<close> on ASCII text.\<close>

definition lower_char :: "char \<Rightarrow> char" where
  "lower_char c =
     (if CHR ''A'' \<le> c \<and> c \<le> CHR ''Z'' then char_of (of_char c + (32::nat)) else c)"

definition lower :: "string \<Rightarrow> string" where
  "lower s = map lower_char s"

definition is_space :: "char \<Rightarrow> bool" where
  "is_space c = (of_char c \<in> {9, 10, 11, 12, 13, 28, 29, 30, 31, 32 :: nat})"

definition strip :: "string \<Rightarrow> string" where
  "strip s = rev (dropWhile is_space (rev (dropWhile is_space s)))"

function replace :: "string \<Rightarrow> string \<Rightarrow> string \<Rightarrow> string" where
  "replace old new s =
     (if old = [] then new @ concat (map (\<lambda>c. c # new) s)
      else if s = [] then []
      else if take (length old) s = old then new @ replace old new (drop (length old) s)
      else hd s # replace old new (tl s))"
  by pat_completeness auto
termination
  by (relation "measure (\<lambda>(old, new, s). length s)") auto

declare replace.simps [simp del]

text \<open>Zero padding of \<open>strftime\<close> fields, text made of lines, the last path component.\<close>

definition zfill :: "nat \<Rightarrow> string \<Rightarrow> string" where
  "zfill width s = replicate (width - length s) CHR ''0'' @ s"

definition text_lines :: "string list \<Rightarrow> string" where
  "text_lines ls = concat (map (\<lambda>l. l @ [CHR 0x0A]) ls)"

definition basename :: "string \<Rightarrow> string" where
  "basename p = last (split_on CHR ''/'' p)"

section \<open>Configuration, project and environment\<close>

text \<open>
  \<open>server_config\<close> is the dict built by \<open>load_server_config\<close>, reduced to the keys the
  assembly reads: \<open>os\<close>, and under \<open>defaults\<close> the keys \<open>python_version\<close> and
  \<open>uv_download_url\<close>; a key that is absent is \<open>None\<close>.
\<close>

record defaults_cfg =
  default_python_version :: "string option"
  uv_download_url :: "string option"

record server_config =
  os :: "string option"
  defaults :: defaults_cfg

text \<open>
  The parsed \<open>pyproject.toml\<close>: a top-level key holds a table or something else. A
  value inside a table is kept as the text an f-string shows for it (for a TOML string,
  the string itself).
\<close>

datatype toml_item = Table "(string \<times> string) list" | Scalar string

text \<open>
  What the assembly reads from outside the working directory and cannot change:
  the network (\<open>None\<close>: \<open>urlretrieve\<close> raises), the archive codecs (\<open>unpack\<close> reads
  a zip or tar file, \<open>None\<close> when the bytes are no archive; \<open>pack\<close> writes a zip file),
  the two uv installation directories (\<open>None\<close>: the directory does not exist), the
  project directory \<open>../<project_name>\<close>, the result of \<open>tomllib.load\<close> on its
  \<open>pyproject.toml\<close> (\<open>None\<close>: not valid TOML), and the clock.
\<close>

record env =
  net :: "string \<Rightarrow> string option"
  unpack :: "string \<Rightarrow> (string \<times> string) list option"
  pack :: "(string \<times> string) list \<Rightarrow> string"
  uv_roaming :: "(string \<times> node) list option"
  uv_local_share :: "(string \<times> node) list option"
  project_dir :: "(string \<times> node) list"
  pyproject :: "(string \<times> toml_item) list option"
  today :: "nat \<times> nat \<times> nat"
  now_iso :: string

definition target_os_of :: "server_config \<Rightarrow> string" where
  "target_os_of sc = lower (case os sc of None \<Rightarrow> ''windows'' | Some v \<Rightarrow> v)"

section \<open>File operations\<close>

definition rename :: "string \<Rightarrow> string \<Rightarrow> world \<Rightarrow> world" where
  "rename src dst w =
     (case files w src of
        None \<Rightarrow> w
      | Some n \<Rightarrow> w\<lparr>files := ((files w)(src := None))(dst \<mapsto> n)\<rparr>)"

text \<open>An entry put at the root of the staging directory.\<close>

definition stage :: "string \<Rightarrow> node \<Rightarrow> world \<Rightarrow> world" where
  "stage name n w = w\<lparr>deploy_dir := AList.update name n (deploy_dir w)\<rparr>"

text \<open>\<open>urlretrieve(url, path)\<close>; the request is logged whether or not it succeeds.\<close>

definition urlretrieve :: "env \<Rightarrow> string \<Rightarrow> string \<Rightarrow> world \<Rightarrow> (exn + unit) \<times> world" where
  "urlretrieve e url path w =
     (let w1 = w\<lparr>fetched := fetched w @ [url]\<rparr> in
      case net e url of
        None \<Rightarrow> (Inl URLError, w1)
      | Some body \<Rightarrow> (Inr (), w1\<lparr>files := (files w1)(path \<mapsto> File body)\<rparr>))"

text \<open>Opening the archive file at \<open>path\<close> and listing its members.\<close>

definition open_archive :: "env \<Rightarrow> string \<Rightarrow> world \<Rightarrow> exn + (string \<times> string) list" where
  "open_archive e path w =
     (case files w path of
        None \<Rightarrow> Inl FileNotFoundError
      | Some (Tree ms) \<Rightarrow> Inl IsADirectoryError
      | Some (File body) \<Rightarrow>
          (case unpack e body of None \<Rightarrow> Inl BadArchive | Some ms \<Rightarrow> Inr ms))"

text \<open>\<open>extractall(path)\<close>: members are written over what the directory holds.\<close>

definition extractall :: "(string \<times> string) list \<Rightarrow> string \<Rightarrow> world \<Rightarrow> world" where
  "extractall ms path w =
     (let old = (case files w path of Some (Tree t) \<Rightarrow> t | _ \<Rightarrow> [])
      in w\<lparr>files := (files w)(path \<mapsto> Tree (ms @ filter (\<lambda>m. map_of ms (fst m) = None) old))\<rparr>)"

section \<open>\<open>OrbitDeployer.download_uv\<close>\<close>

definition linux_uv_url :: string where
  "linux_uv_url =
     ''https://github.com/astral-sh/uv/releases/latest/download/uv-x86_64-unknown-linux-gnu.tar.gz''"

text \<open>Lines 104 to 112: file name, URL (a \<open>KeyError\<close> when the key is absent), cache path.\<close>

definition uv_target :: "server_config \<Rightarrow> exn + string \<times> string" where
  "uv_target sc =
     (if target_os_of sc = ''windows''
      then (case uv_download_url (defaults sc) of
              None \<Rightarrow> Inl KeyError
            | Some u \<Rightarrow> Inr (''uv.exe'', u))
      else Inr (''uv'', linux_uv_url))"

definition uv_cache_path :: "string \<Rightarrow> string \<Rightarrow> string" where
  "uv_cache_path uv_filename target_os = ''cache/'' @ uv_filename @ ''_'' @ target_os"

text \<open>Lines 119 to 131: the zip is fetched, \<open>uv.exe\<close> extracted and renamed.\<close>

definition fetch_uv_windows ::
  "env \<Rightarrow> string \<Rightarrow> string \<Rightarrow> string \<Rightarrow> world \<Rightarrow> (exn + bool) \<times> world" where
  "fetch_uv_windows e uv_url target_os uv_cache w =
     (let zip_path = ''cache/uv_'' @ target_os @ ''.zip'' in
      case urlretrieve e uv_url zip_path w of
        (Inl x, w1) \<Rightarrow> (Inl x, w1)
      | (Inr u, w1) \<Rightarrow>
          (case open_archive e zip_path w1 of
             Inl x \<Rightarrow> (Inl x, w1)
           | Inr ms \<Rightarrow>
               (case map_of ms ''uv.exe'' of
                  None \<Rightarrow> (Inl KeyError, w1)
                | Some c \<Rightarrow>
                    (Inr True,
                     rename ''cache/uv.exe'' uv_cache
                       (unlink zip_path
                          (w1\<lparr>files := (files w1)(''cache/uv.exe'' \<mapsto> File c)\<rparr>))))))"

text \<open>
  Lines 134 to 161: the tarball is fetched and extracted to \<open>cache/temp_uv\<close>, the
  first file named \<open>uv\<close> in the tree is moved to the cache path. When there is none the
  function returns \<open>False\<close>, leaving the tarball and the tree.
\<close>

definition fetch_uv_linux ::
  "env \<Rightarrow> string \<Rightarrow> string \<Rightarrow> string \<Rightarrow> world \<Rightarrow> (exn + bool) \<times> world" where
  "fetch_uv_linux e uv_url target_os uv_cache w =
     (let tar_path = ''cache/uv_'' @ target_os @ ''.tar.gz'' in
      case urlretrieve e uv_url tar_path w of
        (Inl x, w1) \<Rightarrow> (Inl x, w1)
      | (Inr u, w1) \<Rightarrow>
          (case open_archive e tar_path w1 of
             Inl x \<Rightarrow> (Inl x, w1)
           | Inr ms \<Rightarrow>
               (let w2 = extractall ms ''cache/temp_uv'' w1;
                    tree = (case files w2 ''cache/temp_uv'' of Some (Tree t) \<Rightarrow> t | _ \<Rightarrow> [])
                in case filter (\<lambda>m. basename (fst m) = ''uv'') tree of
                     [] \<Rightarrow> (Inr False, w2)
                   | uv_file # others \<Rightarrow>
                       (Inr True,
                        unlink tar_path
                          (unlink ''cache/temp_uv''
                             (w2\<lparr>files := (files w2)(uv_cache \<mapsto> File (snd uv_file))\<rparr>))))))"

text \<open>\<open>shutil.copy2(uv_cache, deploy_dir / uv_filename)\<close>.\<close>

definition copy_to_package :: "string \<Rightarrow> string \<Rightarrow> world \<Rightarrow> (exn + bool) \<times> world" where
  "copy_to_package src name w =
     (case files w src of
        None \<Rightarrow> (Inl FileNotFoundError, w)
      | Some (Tree t) \<Rightarrow> (Inl IsADirectoryError, w)
      | Some (File c) \<Rightarrow> (Inr True, stage name (File c) w))"

definition download_uv :: "server_config \<Rightarrow> env \<Rightarrow> world \<Rightarrow> (exn + bool) \<times> world" where
  "download_uv sc e w =
     (let target_os = target_os_of sc in
      case uv_target sc of
        Inl x \<Rightarrow> (Inl x, w)
      | Inr (uv_filename, uv_url) \<Rightarrow>
          (let uv_cache = uv_cache_path uv_filename target_os in
           if \<not> path_exists w uv_cache
           then (case (if target_os = ''windows''
                       then fetch_uv_windows e uv_url target_os uv_cache w
                       else fetch_uv_linux e uv_url target_os uv_cache w) of
                   (Inr True, w1) \<Rightarrow> copy_to_package uv_cache uv_filename w1
                 | (r, w1) \<Rightarrow> (r, w1))
           else copy_to_package uv_cache uv_filename w))"

section \<open>\<open>OrbitDeployer.copy_python\<close>\<close>

text \<open>
  Lines 247 to 252: when the FallbackRecord file exists its text is split at \<open>|\<close> into
  exactly three parts (anything else is a \<open>ValueError\<close>) and the first part replaces
  the requested version.
\<close>

definition read_fallback :: "string \<Rightarrow> string \<Rightarrow> world \<Rightarrow> exn + string" where
  "read_fallback project_name python_version w =
     (case files w (fallback_path project_name) of
        None \<Rightarrow> Inr python_version
      | Some (Tree t) \<Rightarrow> Inl IsADirectoryError
      | Some (File txt) \<Rightarrow>
          (case split_on CHR ''|'' txt of
             [original, used, timestamp] \<Rightarrow> Inr original
           | _ \<Rightarrow> Inl ValueError))"

text \<open>\<open>not best_version\<close>.\<close>

definition falsy :: "pyval \<Rightarrow> bool" where
  "falsy v = (case v of PNone \<Rightarrow> True | PStr s \<Rightarrow> s = [] | PInfo a b \<Rightarrow> False)"

text \<open>
  The pattern \<open>cpython-{best_version}*-windows-x86_64-none\<close> on a folder name, for a
  version without glob metacharacters.
\<close>

definition windows_match :: "string \<Rightarrow> string \<Rightarrow> bool" where
  "windows_match best_version name =
     (let pre = ''cpython-'' @ best_version; suf = ''-windows-x86_64-none'' in
      length pre + length suf \<le> length name \<and>
      take (length pre) name = pre \<and>
      drop (length name - length suf) name = suf)"

text \<open>Lines 269 to 275: the first match in the first base path that has one.\<close>

fun find_windows_python :: "string \<Rightarrow> (string \<times> node) list option list \<Rightarrow> node option" where
  "find_windows_python best_version [] = None"
| "find_windows_python best_version (None # base_paths) =
     find_windows_python best_version base_paths"
| "find_windows_python best_version (Some entries # base_paths) =
     (case filter (\<lambda>en. windows_match best_version (fst en)) entries of
        [] \<Rightarrow> find_windows_python best_version base_paths
      | found # others \<Rightarrow> Some (snd found))"

text \<open>
  \<open>full_version, build_date = version_info\<close>, each rendered as in the f-strings of
  the URL. A string of two characters unpacks into its characters.
\<close>

definition unpack_info :: "pyval \<Rightarrow> exn + string \<times> string" where
  "unpack_info version_info =
     (case version_info of
        PInfo full_version build_date \<Rightarrow>
          Inr (full_version, (case build_date of None \<Rightarrow> ''None'' | Some d \<Rightarrow> d))
      | PStr s \<Rightarrow> if length s = 2 then Inr ([s ! 0], [s ! 1]) else Inl ValueError
      | PNone \<Rightarrow> Inl TypeError)"

definition python_cache_path :: "string \<Rightarrow> string" where
  "python_cache_path best_version = ''cache/python-'' @ best_version @ ''-linux''"

definition python_url :: "string \<Rightarrow> string \<Rightarrow> string" where
  "python_url full_version build_date =
     ''https://github.com/indygreg/python-build-standalone/releases/download/'' @ build_date
       @ ''/cpython-'' @ full_version @ ''+'' @ build_date
       @ ''-x86_64-unknown-linux-gnu-install_only_stripped.tar.gz''"

text \<open>
  Lines 294 to 313, the \<open>try\<close> block: \<open>True\<close> when it runs to its end, \<open>False\<close> when
  the \<open>except\<close> clause is taken (and \<open>copy_python\<close> returns \<open>False\<close>).
\<close>

definition download_python :: "env \<Rightarrow> string \<Rightarrow> string \<Rightarrow> world \<Rightarrow> bool \<times> world" where
  "download_python e url best_version w =
     (let tar_path = ''cache/python-'' @ best_version @ ''-linux.tar.gz'' in
      case urlretrieve e url tar_path w of
        (Inl x, w1) \<Rightarrow> (False, w1)
      | (Inr u, w1) \<Rightarrow>
          (case open_archive e tar_path w1 of
             Inl x \<Rightarrow> (False, w1)
           | Inr ms \<Rightarrow>
               (True, unlink tar_path (extractall ms (python_cache_path best_version) w1))))"

text \<open>The files under the directory \<open>pre\<close> of a tree (\<open>pre\<close> ends with a slash).\<close>

definition subtree :: "string \<Rightarrow> (string \<times> string) list \<Rightarrow> (string \<times> string) list" where
  "subtree pre ms =
     map (\<lambda>m. (drop (length pre) (fst m), snd m))
       (filter (\<lambda>m. take (length pre) (fst m) = pre) ms)"

text \<open>
  Lines 315 to 317 with the read of \<open>copytree\<close>: the source is the cache's
  \<open>python\<close> directory when there is one, the cache directory otherwise; a source that
  is a file makes \<open>copytree\<close> raise.
\<close>

definition python_source :: "world \<Rightarrow> string \<Rightarrow> exn + (string \<times> string) list" where
  "python_source w python_cache =
     (case files w python_cache of
        None \<Rightarrow> Inl FileNotFoundError
      | Some (File c) \<Rightarrow> Inl NotADirectoryError
      | Some (Tree ms) \<Rightarrow>
          if subtree ''python/'' ms \<noteq> [] then Inr (subtree ''python/'' ms)
          else if map_of ms ''python'' \<noteq> None then Inl NotADirectoryError
          else Inr ms)"

text \<open>
  Lines 283 to 317, the Linux branch: the runtime tree to copy, \<open>None\<close> when the
  function returns \<open>False\<close>.
\<close>

definition cached_python_linux ::
  "env \<Rightarrow> string \<Rightarrow> pyval \<Rightarrow> world \<Rightarrow> (exn + (string \<times> string) list option) \<times> world" where
  "cached_python_linux e best_version version_info w =
     (case unpack_info version_info of
        Inl x \<Rightarrow> (Inl x, w)
      | Inr (full_version, build_date) \<Rightarrow>
          (let python_cache = python_cache_path best_version in
           if \<not> path_exists w python_cache
           then (case download_python e (python_url full_version build_date) best_version w of
                   (False, w1) \<Rightarrow> (Inr None, w1)
                 | (True, w1) \<Rightarrow> (map_sum id Some (python_source w1 python_cache), w1))
           else (map_sum id Some (python_source w python_cache), w)))"

text \<open>Lines 262 to 279, the Windows branch.\<close>

definition local_python_windows ::
  "env \<Rightarrow> string \<Rightarrow> exn + (string \<times> string) list option" where
  "local_python_windows e best_version =
     (case find_windows_python best_version [uv_roaming e, uv_local_share e] of
        None \<Rightarrow> Inr None
      | Some (File c) \<Rightarrow> Inl NotADirectoryError
      | Some (Tree ms) \<Rightarrow> Inr (Some ms))"

text \<open>\<open>shutil.copytree(python_path, deploy_dir / f"python-{best_version}")\<close>.\<close>

definition copytree_to_package ::
  "(string \<times> string) list \<Rightarrow> string \<Rightarrow> world \<Rightarrow> exn + world" where
  "copytree_to_package ms name w =
     (if map_of (deploy_dir w) name \<noteq> None then Inl FileExistsError
      else Inr (stage name (Tree ms) w))"

text \<open>
  The first component returned by the resolver is \<open>None\<close> or a string, so the last
  case below is never taken.
\<close>

definition copy_python ::
  "string \<Rightarrow> server_config \<Rightarrow> env \<Rightarrow> string \<Rightarrow> world \<Rightarrow> (exn + bool) \<times> world" where
  "copy_python project_name sc e python_version w =
     (let target_os = target_os_of sc;
          fallback_file = fallback_path project_name in
      case read_fallback project_name python_version w of
        Inl x \<Rightarrow> (Inl x, w)
      | Inr python_version' \<Rightarrow>
          (case find_best_python_version project_name (map_option (map fst) (uv_roaming e))
                  (now_iso e) python_version' target_os w of
             (Inl x, w1) \<Rightarrow> (Inl x, w1)
           | (Inr (best, version_info), w1) \<Rightarrow>
               if falsy best then (Inr False, w1)
               else
                 (case best of
                    PStr best_version \<Rightarrow>
                      (case (if target_os = ''windows''
                             then (local_python_windows e best_version, w1)
                             else cached_python_linux e best_version version_info w1) of
                         (Inl x, w2) \<Rightarrow> (Inl x, w2)
                       | (Inr None, w2) \<Rightarrow> (Inr False, w2)
                       | (Inr (Some ms), w2) \<Rightarrow>
                           (case copytree_to_package ms (''python-'' @ best_version) w2 of
                              Inl x \<Rightarrow> (Inl x, w2)
                            | Inr w3 \<Rightarrow>
                                (Inr True,
                                 if best_version = python_version' \<and> path_exists w3 fallback_file
                                 then unlink fallback_file w3 else w3)))
                  | _ \<Rightarrow> (Inl TypeError, w1))))"

section \<open>\<open>OrbitDeployer.create_batch_scripts\<close>\<close>

definition setup_bat :: "string \<Rightarrow> string" where
  "setup_bat actual_version =
     text_lines
       [''@echo off'',
        ''echo Installation de l'environnement Python...'',
        ''uv.exe venv --python python-'' @ actual_version @ [CHR 0x5C] @ ''python.exe'',
        ''echo Environnement cree avec succes!'']"

definition run_bat :: string where
  "run_bat =
     text_lines
       [''@echo off'',
        ''.venv'' @ [CHR 0x5C] @ ''Scripts'' @ [CHR 0x5C] @ ''python.exe main.py'',
        ''pause'']"

definition setup_sh :: "string \<Rightarrow> string" where
  \<open>setup_sh actual_version =
     text_lines
       [''#!/bin/bash'',
        ''echo "========================================"'',
        ''echo "Installation de l'environnement Python"'',
        ''echo "========================================"'',
        ''echo ""'',
        ''./uv venv --python python-'' @ actual_version @ ''/bin/python'',
        ''echo ""'',
        ''echo "Environnement cr'' @ [CHR 0xC3, CHR 0xA9, CHR 0xC3, CHR 0xA9] @ '' avec succ''
          @ [CHR 0xC3, CHR 0xA8] @ ''s!"'',
        ''echo "========================================"'']\<close>

definition run_sh :: "string \<Rightarrow> string" where
  \<open>run_sh project_name =
     text_lines
       [''#!/bin/bash'',
        ''echo "========================================"'',
        ''echo "Ex'' @ [CHR 0xC3, CHR 0xA9] @ ''cution de '' @ project_name @ ''"'',
        ''echo "========================================"'',
        ''echo ""'',
        ''.venv/bin/python main.py'',
        ''echo ""'',
        ''echo "Appuyez sur Entr'' @ [CHR 0xC3, CHR 0xA9] @ ''e pour continuer..."'',
        ''read'']\<close>

text \<open>
  Lines 407 to 416: on Linux the version is read back from the name of the first
  \<open>python-*\<close> entry of the staging directory; otherwise it is the argument.
\<close>

definition actual_version_of :: "string \<Rightarrow> string \<Rightarrow> world \<Rightarrow> string" where
  "actual_version_of target_os python_version w =
     (if target_os = ''linux''
      then (case filter (\<lambda>n. take 7 n = ''python-'') (map fst (deploy_dir w)) of
              [] \<Rightarrow> python_version
            | d # others \<Rightarrow> replace ''python-'' '''' d)
      else python_version)"

text \<open>A template, when the file exists; reading a directory raises.\<close>

definition read_template :: "string \<Rightarrow> world \<Rightarrow> exn + string option" where
  "read_template path w =
     (case files w path of
        None \<Rightarrow> Inr None
      | Some (File txt) \<Rightarrow> Inr (Some txt)
      | Some (Tree t) \<Rightarrow> Inl IsADirectoryError)"

definition create_batch_scripts ::
  "string \<Rightarrow> server_config \<Rightarrow> string \<Rightarrow> world \<Rightarrow> (exn + unit) \<times> world" where
  "create_batch_scripts project_name sc python_version w =
     (let target_os = target_os_of sc;
          actual_version = actual_version_of target_os python_version w in
      if target_os = ''windows''
      then (case read_template ''templates/setup.bat.template'' w of
              Inl x \<Rightarrow> (Inl x, w)
            | Inr setup_template \<Rightarrow>
                (let w1 = stage ''setup.bat''
                            (File (case setup_template of
                                     Some content \<Rightarrow>
                                       replace ''{python_version}'' actual_version content
                                   | None \<Rightarrow> setup_bat actual_version)) w
                 in case read_template ''templates/run.bat.template'' w1 of
                      Inl x \<Rightarrow> (Inl x, w1)
                    | Inr run_template \<Rightarrow>
                        (Inr (),
                         stage ''run.bat''
                           (File (case run_template of
                                    Some content \<Rightarrow>
                                      replace ''{main_file}'' ''main.py''
                                        (replace ''{project_name}'' project_name content)
                                  | None \<Rightarrow> run_bat)) w1)))
      else (Inr (),
            stage ''run.sh'' (File (run_sh project_name))
              (stage ''setup.sh'' (File (setup_sh actual_version)) w)))"

section \<open>\<open>OrbitDeployer.create_deployment_package\<close>\<close>

definition get_project_version :: "env \<Rightarrow> exn + string" where
  "get_project_version e =
     (case map_of (project_dir e) ''pyproject.toml'' of
        None \<Rightarrow> Inr ''0.1.0''
      | Some (Tree t) \<Rightarrow> Inl IsADirectoryError
      | Some (File c) \<Rightarrow>
          (case pyproject e of
             None \<Rightarrow> Inl TOMLDecodeError
           | Some data \<Rightarrow>
               (case map_of data ''project'' of
                  None \<Rightarrow> Inr ''0.1.0''
                | Some (Scalar v) \<Rightarrow> Inl AttributeError
                | Some (Table project) \<Rightarrow>
                    Inr (case map_of project ''version'' of None \<Rightarrow> ''0.1.0'' | Some v \<Rightarrow> v))))"

definition get_python_version :: "server_config \<Rightarrow> env \<Rightarrow> exn + string" where
  "get_python_version sc e =
     (case map_of (project_dir e) ''.python-version'' of
        Some (File txt) \<Rightarrow> Inr (strip txt)
      | Some (Tree t) \<Rightarrow> Inl IsADirectoryError
      | None \<Rightarrow>
          Inr (case default_python_version (defaults sc) of None \<Rightarrow> ''3.12'' | Some v \<Rightarrow> v))"

text \<open>\<open>datetime.now().strftime('%Y%m%d')\<close> for the date \<open>(year, month, day)\<close>.\<close>

definition date_str :: "nat \<times> nat \<times> nat \<Rightarrow> string" where
  "date_str d =
     (case d of (year, month, day) \<Rightarrow>
        zfill 4 (str_nat year) @ zfill 2 (str_nat month) @ zfill 2 (str_nat day))"

definition package_name :: "string \<Rightarrow> string \<Rightarrow> nat \<times> nat \<times> nat \<Rightarrow> string" where
  "package_name project_name version d =
     project_name @ ''-v'' @ version @ ''-'' @ date_str d @ ''.zip''"

text \<open>Lines 358 to 370: the allow-listed files and folders that exist are copied.\<close>

definition files_to_copy :: "string list" where
  "files_to_copy = [''main.py'', ''pyproject.toml'', ''.python-version'', ''requirements.txt'',
     ''README.md'']"

definition folders_to_copy :: "string list" where
  "folders_to_copy = [''src'', ''templates'', ''static'', ''config'']"

fun copy_project_files :: "string list \<Rightarrow> (string \<times> node) list \<Rightarrow> world \<Rightarrow> exn + world" where
  "copy_project_files [] project w = Inr w"
| "copy_project_files (file # rest) project w =
     (case map_of project file of
        None \<Rightarrow> copy_project_files rest project w
      | Some (Tree t) \<Rightarrow> Inl IsADirectoryError
      | Some (File c) \<Rightarrow> copy_project_files rest project (stage file (File c) w))"

fun copy_project_folders :: "string list \<Rightarrow> (string \<times> node) list \<Rightarrow> world \<Rightarrow> exn + world" where
  "copy_project_folders [] project w = Inr w"
| "copy_project_folders (folder # rest) project w =
     (case map_of project folder of
        None \<Rightarrow> copy_project_folders rest project w
      | Some (File c) \<Rightarrow> Inl NotADirectoryError
      | Some (Tree t) \<Rightarrow> copy_project_folders rest project (stage folder (Tree t) w))"

text \<open>The files of the staging directory by path relative to it, as the zip stores them.\<close>

definition package_members :: "(string \<times> node) list \<Rightarrow> (string \<times> string) list" where
  "package_members entries =
     concat (map (\<lambda>en. case snd en of
                          File c \<Rightarrow> [(fst en, c)]
                        | Tree ms \<Rightarrow> map (\<lambda>m. (fst en @ ''/'' @ fst m, snd m)) ms) entries)"

text \<open>
  The body of the \<open>with tempfile.TemporaryDirectory()\<close> block, on an empty staging
  directory. The result is the path of the archive, \<open>None\<close> for \<open>return None\<close>.
\<close>

definition assemble ::
  "string \<Rightarrow> server_config \<Rightarrow> env \<Rightarrow> string \<Rightarrow> world \<Rightarrow> (exn + string option) \<times> world" where
  "assemble project_name sc e name w =
     (case copy_project_files files_to_copy (project_dir e) w of
        Inl x \<Rightarrow> (Inl x, w)
      | Inr wa \<Rightarrow>
     (case copy_project_folders folders_to_copy (project_dir e) wa of
        Inl x \<Rightarrow> (Inl x, wa)
      | Inr wb \<Rightarrow>
     (case download_uv sc e wb of
        (Inl x, w1) \<Rightarrow> (Inl x, w1)
      | (Inr False, w1) \<Rightarrow> (Inr None, w1)
      | (Inr True, w1) \<Rightarrow>
     (case get_python_version sc e of
        Inl x \<Rightarrow> (Inl x, w1)
      | Inr python_version \<Rightarrow>
     (case copy_python project_name sc e python_version w1 of
        (Inl x, w2) \<Rightarrow> (Inl x, w2)
      | (Inr False, w2) \<Rightarrow> (Inr None, w2)
      | (Inr True, w2) \<Rightarrow>
     (case create_batch_scripts project_name sc python_version w2 of
        (Inl x, w3) \<Rightarrow> (Inl x, w3)
      | (Inr u, w3) \<Rightarrow>
          (let zip_path = ''packages/'' @ name in
           (Inr (Some zip_path),
            w3\<lparr>files := (files w3)(zip_path \<mapsto> File (pack e (package_members (deploy_dir w3))))\<rparr>))))))))"

text \<open>
  The staging directory is new on entry and removed on every exit of the block.
\<close>

definition create_deployment_package ::
  "string \<Rightarrow> server_config \<Rightarrow> env \<Rightarrow> world \<Rightarrow> (exn + string option) \<times> world" where
  "create_deployment_package project_name sc e w =
     (case get_project_version e of
        Inl x \<Rightarrow> (Inl x, w)
      | Inr version \<Rightarrow>
          (case assemble project_name sc e (package_name project_name version (today e))
                  (w\<lparr>deploy_dir := []\<rparr>) of
             (r, w1) \<Rightarrow> (r, w1\<lparr>deploy_dir := []\<rparr>)))"

section \<open>\<open>OrbitDeployer.run\<close> and the loop of \<open>deploy\<close>\<close>

text \<open>
  The remote session is outside the model: what \<open>connect\<close>, \<open>transfer_package\<close> and
  \<open>test_deployment\<close> return or raise is given.
\<close>

record remote =
  connect :: bool
  transfer_package :: "string \<Rightarrow> exn + bool"
  test_deployment :: "exn + bool"

definition run ::
  "remote \<Rightarrow> string \<Rightarrow> server_config \<Rightarrow> env \<Rightarrow> world \<Rightarrow> (exn + bool) \<times> world" where
  "run rs project_name sc e w =
     (if \<not> connect rs then (Inr False, w)
      else (case create_deployment_package project_name sc e w of
              (Inl x, w1) \<Rightarrow> (Inl x, w1)
            | (Inr None, w1) \<Rightarrow> (Inr False, w1)
            | (Inr (Some package_path), w1) \<Rightarrow>
                (case transfer_package rs package_path of
                   Inl x \<Rightarrow> (Inl x, w1)
                 | Inr False \<Rightarrow> (Inr False, w1)
                 | Inr True \<Rightarrow> (test_deployment rs, w1))))"

text \<open>
  \<open>configs/servers.yaml\<close>: under \<open>servers\<close> each name with the value of its \<open>os\<close>
  key, and the \<open>defaults\<close>; \<open>None\<close> is an absent key.
\<close>

record config =
  servers :: "(string \<times> string option) list option"
  config_defaults :: "defaults_cfg option"

text \<open>
  The constructor ends in one of three ways: \<open>sys.exit(1)\<close>, whose \<open>SystemExit\<close> is not
  an \<open>Exception\<close>; an exception; or the deployer, here its \<open>server_config\<close>.
\<close>

datatype 'a construction = SystemExit | Raised exn | Constructed 'a

definition load_server_config :: "config \<Rightarrow> string \<Rightarrow> server_config construction" where
  "load_server_config cfg server_name =
     (case servers cfg of
        None \<Rightarrow> Raised KeyError
      | Some ss \<Rightarrow>
          (case map_of ss server_name of
             None \<Rightarrow> SystemExit
           | Some os_value \<Rightarrow>
               Constructed
                 \<lparr>os = os_value,
                  defaults = (case config_defaults cfg of
                                None \<Rightarrow> \<lparr>default_python_version = None, uv_download_url = None\<rparr>
                              | Some d \<Rightarrow> d)\<rparr>))"

definition new_deployer :: "config \<Rightarrow> bool \<Rightarrow> string \<Rightarrow> server_config construction" where
  "new_deployer cfg project_exists server =
     (case load_server_config cfg server of
        Constructed sc \<Rightarrow> if \<not> project_exists then SystemExit else Constructed sc
      | other \<Rightarrow> other)"

text \<open>
  Lines 822 to 837. \<open>run_deployer srv sc\<close> is \<open>deployer.run()\<close> for the deployer of
  server \<open>srv\<close>, acting on a state of any kind. The result is \<open>None\<close> when the
  process exits inside the loop, the lists \<open>(failed, succeeded)\<close> otherwise.
\<close>

fun deploy_each ::
  "(string \<Rightarrow> server_config \<Rightarrow> 's \<Rightarrow> (exn + bool) \<times> 's) \<Rightarrow> config \<Rightarrow> bool \<Rightarrow> string list
     \<Rightarrow> string list \<Rightarrow> string list \<Rightarrow> 's \<Rightarrow> (string list \<times> string list) option \<times> 's" where
  "deploy_each run_deployer cfg project_exists [] failed succeeded s =
     (Some (failed, succeeded), s)"
| "deploy_each run_deployer cfg project_exists (srv # rest) failed succeeded s =
     (case new_deployer cfg project_exists srv of
        SystemExit \<Rightarrow> (None, s)
      | Raised x \<Rightarrow>
          deploy_each run_deployer cfg project_exists rest (failed @ [srv]) succeeded s
      | Constructed sc \<Rightarrow>
          (case run_deployer srv sc s of
             (Inr True, s1) \<Rightarrow>
               deploy_each run_deployer cfg project_exists rest failed (succeeded @ [srv]) s1
           | (Inr False, s1) \<Rightarrow>
               deploy_each run_deployer cfg project_exists rest (failed @ [srv]) succeeded s1
           | (Inl x, s1) \<Rightarrow>
               deploy_each run_deployer cfg project_exists rest (failed @ [srv]) succeeded s1))"

text \<open>
  Lines 840 to 845: the summary, one line for each of the two lists that is not empty
  (the wording of the lines is left out).
\<close>

datatype summary_line = Reussi "string list" | Echoue "string list"

definition summary :: "string list \<Rightarrow> string list \<Rightarrow> string list \<Rightarrow> summary_line list" where
  "summary servers_to_deploy succeeded failed =
     (if length servers_to_deploy > 1
      then (if succeeded \<noteq> [] then [Reussi succeeded] else [])
           @ (if failed \<noteq> [] then [Echoue failed] else [])
      else [])"

datatype deploy_result = Exited | Completed "string list" "string list" "summary_line list"

definition deploy_servers ::
  "(string \<Rightarrow> server_config \<Rightarrow> 's \<Rightarrow> (exn + bool) \<times> 's) \<Rightarrow> config \<Rightarrow> bool \<Rightarrow> string list
     \<Rightarrow> 's \<Rightarrow> deploy_result \<times> 's" where
  "deploy_servers run_deployer cfg project_exists servers_to_deploy s =
     (case deploy_each run_deployer cfg project_exists servers_to_deploy [] [] s of
        (None, s1) \<Rightarrow> (Exited, s1)
      | (Some (failed, succeeded), s1) \<Rightarrow>
          (Completed succeeded failed (summary servers_to_deploy succeeded failed), s1))"

definition empty_world :: world where
  "empty_world = \<lparr>files = (\<lambda>p. None), fetched = [], deploy_dir = []\<rparr>"

text \<open>
  The state after the attempt on one server: that of its \<open>run\<close> when the deployer
  could be constructed, the state before otherwise.
\<close>

definition after_target ::
  "(string \<Rightarrow> server_config \<Rightarrow> 's \<Rightarrow> (exn + bool) \<times> 's) \<Rightarrow> config \<Rightarrow> bool \<Rightarrow> 's \<Rightarrow> string
     \<Rightarrow> 's" where
  "after_target run_deployer cfg project_exists s srv =
     (case new_deployer cfg project_exists srv of
        Constructed sc \<Rightarrow> snd (run_deployer srv sc s)
      | _ \<Rightarrow> s)"

section \<open>Example inputs\<close>

text \<open>
  A project \<open>demo\<close> at version 2.1.0 that asks for Python 3.14, on 2024-05-01. The
  local uv installation has Python 3.13 only. Archives are stood for by three marker
  strings, and the zip writer lists its members as \<open>path=content;\<close>.
\<close>

definition example_unpack :: "string \<Rightarrow> (string \<times> string) list option" where
  "example_unpack body =
     (if body = ''UV-ZIP'' then Some [(''uv.exe'', ''MZ-uv'')]
      else if body = ''UV-TAR'' then Some [(''uv-x86_64-unknown-linux-gnu/uv'', ''ELF-uv'')]
      else if body = ''PYTHON-TAR'' then Some [(''python/bin/python3'', ''ELF-python'')]
      else None)"

definition example_pack :: "(string \<times> string) list \<Rightarrow> string" where
  "example_pack ms = concat (map (\<lambda>m. fst m @ ''='' @ snd m @ '';'') ms)"

definition example_net :: "string \<Rightarrow> string option" where
  "example_net url =
     (if url = ''https://example.org/uv.zip'' then Some ''UV-ZIP''
      else if url = linux_uv_url then Some ''UV-TAR''
      else if url = python_url ''3.13.0'' ''20241016'' then Some ''PYTHON-TAR''
      else if url = python_url ''3.12.7'' ''20241016'' then Some ''PYTHON-TAR''
      else None)"

definition example_project :: "(string \<times> node) list" where
  "example_project =
     [(''main.py'', File ''print(1)''),
      (''pyproject.toml'', File ''[project]''),
      (''.python-version'', File (text_lines [''3.14'']))]"

definition example_env :: env where
  "example_env =
     \<lparr>net = example_net, unpack = example_unpack, pack = example_pack,
      uv_roaming =
        Some [(''cpython-3.13.0-windows-x86_64-none'', Tree [(''python.exe'', ''PE-python'')])],
      uv_local_share = None,
      project_dir = example_project,
      pyproject = Some [(''project'', Table [(''name'', ''demo''), (''version'', ''2.1.0'')])],
      today = (2024, 5, 1),
      now_iso = ''2024-05-01T10:00:00''\<rparr>"

text \<open>The same project without a manifest.\<close>

definition example_env_no_manifest :: env where
  "example_env_no_manifest =
     example_env\<lparr>project_dir := [(''main.py'', File ''print(1)'')], pyproject := None\<rparr>"

text \<open>The same environment with every download failing.\<close>

definition no_net :: "string \<Rightarrow> string option" where
  "no_net url = None"

definition example_env_offline :: env where
  "example_env_offline = example_env\<lparr>net := no_net\<rparr>"

definition windows_server :: server_config where
  "windows_server =
     \<lparr>os = Some ''Windows'',
      defaults = \<lparr>default_python_version = None,
                  uv_download_url = Some ''https://example.org/uv.zip''\<rparr>\<rparr>"

definition linux_server :: server_config where
  "linux_server =
     \<lparr>os = Some ''linux'',
      defaults = \<lparr>default_python_version = None, uv_download_url = None\<rparr>\<rparr>"

text \<open>
  A working directory with the uv binary for Linux in the cache and a FallbackRecord
  for \<open>demo\<close>: 3.13 was requested and 3.12 was used.
\<close>

definition example_recorded :: world where
  "example_recorded =
     empty_world\<lparr>files := ((files empty_world)
        (''cache/uv_linux'' \<mapsto> File ''ELF-uv''))
        (fallback_path ''demo'' \<mapsto> File ''3.13|3.12|2024-04-01T09:00:00'')\<rparr>"

text \<open>The same with a record whose request has a patch component.\<close>

definition example_recorded_patch :: world where
  "example_recorded_patch =
     empty_world\<lparr>files := ((files empty_world)
        (''cache/uv_linux'' \<mapsto> File ''ELF-uv''))
        (fallback_path ''demo'' \<mapsto> File ''3.13.0|3.12|2024-04-01T09:00:00'')\<rparr>"

text \<open>
  Three configured servers. The example \<open>run\<close> raises for server \<open>b\<close> and succeeds
  for every other one; its state is the list of the servers it ran for.
\<close>

definition example_config :: config where
  "example_config =
     \<lparr>servers = Some [(''a'', Some ''linux''), (''b'', Some ''windows''), (''c'', None)],
      config_defaults = None\<rparr>"

definition example_run ::
  "string \<Rightarrow> server_config \<Rightarrow> string list \<Rightarrow> (exn + bool) \<times> string list" where
  "example_run srv sc s = ((if srv = ''b'' then Inl URLError else Inr True), s @ [srv])"

section \<open>Properties of the version resolver\<close>

lemma digit_char_props:
  assumes "d < 10"
  shows "is_digit (digit_char d)" and "digit_val (digit_char d) = d"
proof -
  from assms have "d \<in> {0,1,2,3,4,5,6,7,8,9}" by auto
  then show "is_digit (digit_char d)" and "digit_val (digit_char d) = d"
    by (auto simp: is_digit_def digit_char_def digit_val_def)
qed

lemma is_digit_not_dot: "is_digit c \<Longrightarrow> c \<noteq> CHR ''.''"
  by (auto simp: is_digit_def)

lemma str_nat_digits: "list_all is_digit (str_nat n)"
proof (induction n rule: str_nat.induct)
  case (1 n)
  show ?case
  proof (cases "n < 10")
    case True
    then show ?thesis by (subst str_nat.simps) (simp add: digit_char_props)
  next
    case False
    then show ?thesis using 1 by (subst str_nat.simps) (simp add: digit_char_props)
  qed
qed

lemma str_nat_nonempty: "str_nat n \<noteq> []"
  by (subst str_nat.simps) simp

lemma int_of_digits_snoc: "int_of_digits (ds @ [c]) = 10 * int_of_digits ds + digit_val c"
  by (simp add: int_of_digits_def)

lemma int_of_digits_str_nat: "int_of_digits (str_nat n) = n"
proof (induction n rule: str_nat.induct)
  case (1 n)
  show ?case
  proof (cases "n < 10")
    case True
    then show ?thesis
      by (subst str_nat.simps) (simp add: int_of_digits_def digit_char_props)
  next
    case False
    then have "int_of_digits (str_nat (n div 10)) = n div 10" using 1 by simp
    with False show ?thesis
      by (subst str_nat.simps) (simp add: int_of_digits_snoc digit_char_props)
  qed
qed

lemma split_on_nonempty: "split_on sep s \<noteq> []"
  by (induction s) (auto split: list.splits)

lemma split_on_digits: "list_all is_digit ds \<Longrightarrow> split_on CHR ''.'' ds = [ds]"
  by (induction ds) (auto dest: is_digit_not_dot)

lemma split_on_digits_dot:
  "list_all is_digit ds \<Longrightarrow> split_on CHR ''.'' (ds @ CHR ''.'' # rest) = ds # split_on CHR ''.'' rest"
  by (induction ds) (auto dest: is_digit_not_dot)

lemma py_int_digits: "ds \<noteq> [] \<Longrightarrow> list_all is_digit ds \<Longrightarrow> py_int ds = Some (int_of_digits ds)"
  by (simp add: py_int_def)

lemma parse_key_two:
  assumes "g1 \<noteq> []" "list_all is_digit g1" "g2 \<noteq> []" "list_all is_digit g2"
  shows "parse_key (g1 @ ''.'' @ g2) = Some (int_of_digits g1, int_of_digits g2)"
  using assms by (simp add: parse_key_def split_on_digits_dot split_on_digits py_int_digits)

lemma parse_key_short_version: "parse_key (short_version v) = Some v"
  unfolding short_version_def
  by (simp add: parse_key_two [simplified] str_nat_digits str_nat_nonempty int_of_digits_str_nat)

lemma match_request_Some:
  assumes "match_request s = Some (g1, g2)"
  shows "g1 \<noteq> [] \<and> list_all is_digit g1 \<and> g2 \<noteq> [] \<and> list_all is_digit g2"
proof -
  have t: "list_all is_digit (takeWhile is_digit xs)" for xs
    by (induction xs) auto
  from assms show ?thesis
    by (auto simp: match_request_def Let_def t split: if_splits list.splits)
qed

lemma short_of_match_version_text:
  assumes "match_version_text s = Some ver"
  shows "\<exists>v. parse_key (join ''.'' (take 2 (split_on CHR ''.'' ver))) = Some v"
proof -
  have t: "list_all is_digit (takeWhile is_digit xs)" for xs
    by (induction xs) auto
  from assms obtain g1 g2 where m: "match_request s = Some (g1, g2)"
    by (auto simp: match_version_text_def split: option.splits)
  note g = match_request_Some [OF m]
  from assms m consider "ver = g1 @ ''.'' @ g2"
    | g3 where "ver = g1 @ ''.'' @ g2 @ ''.'' @ g3" "list_all is_digit g3"
    by (auto simp: match_version_text_def t split: list.splits if_splits)
  then show ?thesis
  proof cases
    case 1
    with g have "join ''.'' (take 2 (split_on CHR ''.'' ver)) = g1 @ ''.'' @ g2"
      by (simp add: split_on_digits_dot split_on_digits)
    with g show ?thesis by (simp add: parse_key_two [simplified])
  next
    case 2
    with g have "join ''.'' (take 2 (split_on CHR ''.'' ver)) = g1 @ ''.'' @ g2"
      by (simp add: split_on_digits_dot split_on_digits)
    with g show ?thesis by (simp add: parse_key_two [simplified])
  qed
qed

lemma short_of_search_cpython:
  "search_cpython name = Some ver \<Longrightarrow>
     \<exists>v. parse_key (join ''.'' (take 2 (split_on CHR ''.'' ver))) = Some v"
proof (induction name rule: search_cpython.induct)
  case 1
  then show ?case by simp
next
  case (2 c cs)
  then show ?case
    by (auto split: if_splits option.splits dest: short_of_match_version_text)
qed

lemma scan_folders_keys:
  "\<forall>k \<in> fst ` set av. \<exists>v. parse_key k = Some v \<Longrightarrow>
   \<forall>k \<in> fst ` set (scan_folders names av). \<exists>v. parse_key k = Some v"
proof (induction names arbitrary: av)
  case Nil
  then show ?case by simp
next
  case (Cons name names)
  show ?case
  proof (cases "search_cpython name")
    case None
    with Cons show ?thesis by simp
  next
    case (Some ver)
    from short_of_search_cpython [OF Some] Cons.prems
    have "\<forall>k \<in> fst ` set (AList.update (join ''.'' (take 2 (split_on CHR ''.'' ver))) (ver, None) av).
            \<exists>v. parse_key k = Some v"
      by (auto simp: dom_update)
    from Cons.IH [OF this] Some show ?thesis by simp
  qed
qed

lemma linux_keys: "\<forall>k \<in> fst ` set linux_versions. \<exists>v. parse_key k = Some v"
  by (simp add: linux_versions_def parse_key_def py_int_def is_digit_def)

lemma catalog_keys_parse:
  assumes "k \<in> fst ` set (available_versions target_os roaming)"
  shows "\<exists>v. parse_key k = Some v"
proof (cases "target_os = ''linux''")
  case True
  with assms linux_keys show ?thesis by (auto simp: available_versions_def)
next
  case False
  show ?thesis
  proof (cases roaming)
    case None
    with False assms show ?thesis by (simp add: available_versions_def)
  next
    case (Some names)
    have "\<forall>k \<in> fst ` set (scan_folders (glob_cpython names) []). \<exists>v. parse_key k = Some v"
      by (rule scan_folders_keys) simp
    with False Some assms show ?thesis by (auto simp: available_versions_def)
  qed
qed

lemma scan_folders_distinct:
  "distinct (map fst av) \<Longrightarrow> distinct (map fst (scan_folders names av))"
  by (induction names arbitrary: av) (auto simp: distinct_update split: option.splits)

lemma catalog_keys_distinct: "distinct (map fst (available_versions target_os roaming))"
  by (auto simp: available_versions_def linux_versions_def scan_folders_distinct
        split: option.splits)

lemma find_best_first_component:
  "fst (find_best_python_version project_name roaming now requested_version target_os w)
     = Inr (best, info) \<Longrightarrow> best = PNone \<or> (\<exists>v. best = PStr v)"
  by (auto simp: find_best_python_version_def Let_def
        split: option.splits sum.splits if_splits prod.splits)

lemma first_lower_none:
  "\<forall>k \<in> fst ` set xs. \<exists>v. parse_key k = Some v \<and> \<not> is_lower v r \<Longrightarrow>
   first_lower r xs = Inr None"
  by (induction xs) auto

lemma set_sorted_items_reverse: "set (sorted_items_reverse av) = set av"
  by (simp add: sorted_items_reverse_def)

lemma find_best_unresolved:
  assumes p: "parse_request requested_version = Some r"
    and none: "\<forall>k \<in> fst ` set (available_versions target_os roaming).
                 \<forall>v. parse_key k = Some v \<longrightarrow> v \<noteq> r \<and> \<not> is_lower v r"
  shows "find_best_python_version project_name roaming now requested_version target_os w =
           (Inr (PNone, PNone), w)"
proof -
  let ?av = "available_versions target_os roaming"
  have "map_of ?av (short_version r) = None"
  proof (rule ccontr)
    assume "map_of ?av (short_version r) \<noteq> None"
    then have "short_version r \<in> fst ` set ?av"
      by (auto dest: map_of_SomeD intro: rev_image_eqI)
    with none parse_key_short_version [of r] show False by blast
  qed
  moreover have "first_lower r (sorted_items_reverse ?av) = Inr None"
  proof (rule first_lower_none)
    show "\<forall>k \<in> fst ` set (sorted_items_reverse ?av). \<exists>v. parse_key k = Some v \<and> \<not> is_lower v r"
      unfolding set_sorted_items_reverse
      using none catalog_keys_parse [of _ target_os roaming] by blast
  qed
  ultimately show ?thesis
    using p by (simp add: find_best_python_version_def)
qed

lemma find_best_result_only_parsed:
  assumes "parse_request r1 = Some v" and "parse_request r2 = Some v"
  shows "fst (find_best_python_version p1 roaming now1 r1 target_os w1) =
         fst (find_best_python_version p2 roaming now2 r2 target_os w2)"
  using assms
  by (simp add: find_best_python_version_def Let_def split: option.splits sum.splits)

lemma find_best_exact:
  assumes "parse_request requested_version = Some r"
    and "map_of (available_versions target_os roaming) (short_version r) = Some info"
  shows "find_best_python_version project_name roaming now requested_version target_os w =
           (Inr (PStr (short_version r), info_val info), w)"
  using assms by (simp add: find_best_python_version_def)

text \<open>
  C5. When the \<open>major.minor\<close> key of the request is a key of the catalog, the resolver
  returns that key with the catalog's entry, and the state (so every FallbackRecord file)
  is the one it was called in.
\<close>

theorem exact_match_returns_entry:
  assumes "parse_request requested_version = Some r"
    and "map_of (available_versions target_os roaming) (short_version r) = Some info"
  shows "find_best_python_version project_name roaming now requested_version target_os w =
           (Inr (PStr (short_version r), info_val info), w)"
  using assms by (rule find_best_exact)

theorem exact_match_returns_entry_witness:
  "parse_request ''3.12'' = Some (3, 12) \<and>
   map_of (available_versions ''linux'' None) (short_version (3, 12))
     = Some (''3.12.7'', Some ''20241016'') \<and>
   find_best_python_version ''demo'' None ''2024-05-01T10:00:00'' ''3.12'' ''linux'' empty_world
     = (Inr (PStr ''3.12'', PInfo ''3.12.7'' (Some ''20241016'')), empty_world)"
proof -
  have p: "parse_request ''3.12'' = Some (3, 12)"
    by code_simp
  have k: "short_version (3, 12) = ''3.12''"
    by code_simp
  have m: "map_of (available_versions ''linux'' None) (short_version (3, 12))
             = Some (''3.12.7'', Some ''20241016'')"
    unfolding k by code_simp
  show ?thesis
    using exact_match_returns_entry [OF p m, of "''demo''" "''2024-05-01T10:00:00''" empty_world]
      p m
    by (simp add: k info_val_def)
qed

text \<open>
  C2 (as the code has it). A request that the pattern does not match is handed back as it
  is, in both components of the result; the catalog is not consulted and the state is
  the one the resolver was called in.
\<close>

theorem malformed_request_is_echoed:
  assumes "parse_request requested_version = None"
  shows "find_best_python_version project_name roaming now requested_version target_os w =
           (Inr (PStr requested_version, PStr requested_version), w)"
  using assms by (simp add: find_best_python_version_def)

theorem malformed_request_is_echoed_witness:
  "parse_request ''abc'' = None \<and>
   find_best_python_version ''demo'' None ''2024-05-01T10:00:00'' ''abc'' ''linux'' empty_world
     = (Inr (PStr ''abc'', PStr ''abc''), empty_world)"
proof -
  have p: "parse_request ''abc'' = None"
    by code_simp
  show ?thesis
    using malformed_request_is_echoed
            [OF p, of "''demo''" None "''2024-05-01T10:00:00''" "''linux''" empty_world] p
    by simp
qed

text \<open>
  C2 (as stated) fails: for the request \<open>abc\<close> the result is not the unresolved pair
  \<open>(None, None)\<close>.
\<close>

theorem malformed_request_not_unresolved:
  "fst (find_best_python_version ''demo'' None ''2024-05-01T10:00:00'' ''abc'' ''linux''
          empty_world) \<noteq> Inr (PNone, PNone)"
proof -
  have p: "parse_request ''abc'' = None"
    by code_simp
  show ?thesis
    by (simp add: find_best_python_version_def p)
qed

text \<open>
  C6. For a well-formed request such that no catalog key is the requested version or a
  lower one, the resolver returns the unresolved pair \<open>(None, None)\<close> and the state
  (so any FallbackRecord file written earlier) is the one it was called in.
\<close>

theorem nothing_at_or_below_is_unresolved:
  assumes "parse_request requested_version = Some r"
    and "\<forall>k \<in> fst ` set (available_versions target_os roaming).
           \<forall>v. parse_key k = Some v \<longrightarrow> v \<noteq> r \<and> \<not> is_lower v r"
  shows "find_best_python_version project_name roaming now requested_version target_os w =
           (Inr (PNone, PNone), w)"
  using assms by (rule find_best_unresolved)

theorem nothing_at_or_below_is_unresolved_witness:
  "parse_request ''3.9'' = Some (3, 9) \<and>
   map (parse_key \<circ> fst) (available_versions ''linux'' None)
     = [Some (3, 13), Some (3, 12), Some (3, 11), Some (3, 10)] \<and>
   find_best_python_version ''demo'' None ''2024-05-01T10:00:00'' ''3.9'' ''linux'' empty_world
     = (Inr (PNone, PNone), empty_world)"
proof -
  have p: "parse_request ''3.9'' = Some (3, 9)"
    by code_simp
  have ks: "map (parse_key \<circ> fst) (available_versions ''linux'' None)
              = [Some (3, 13), Some (3, 12), Some (3, 11), Some (3, 10)]"
    by code_simp
  have n: "\<forall>k \<in> fst ` set (available_versions ''linux'' None).
             \<forall>v. parse_key k = Some v \<longrightarrow> v \<noteq> (3, 9) \<and> \<not> is_lower v (3, 9)"
    by (simp add: available_versions_def linux_versions_def parse_key_def py_int_def
          is_digit_def int_of_digits_def digit_val_def is_lower_def)
  from nothing_at_or_below_is_unresolved
         [OF p n, of "''demo''" "''2024-05-01T10:00:00''" empty_world] p ks
  show ?thesis by blast
qed

text \<open>
  C8. Two requests with the same parsed \<open>(major, minor)\<close> get the same returned pair
  (the text of a FallbackRecord, when one is written, keeps the request as it was
  given). In particular a request whose \<open>major.minor\<close> key is in the catalog, with or
  without a patch component, is an exact match: the catalog's entry is returned and the
  state is unchanged.
\<close>

theorem resolution_depends_on_major_minor:
  assumes "parse_request r1 = Some v" and "parse_request r2 = Some v"
  shows "fst (find_best_python_version project_name roaming now r1 target_os w) =
         fst (find_best_python_version project_name roaming now r2 target_os w) \<and>
         (\<forall>info. map_of (available_versions target_os roaming) (short_version v) = Some info \<longrightarrow>
            find_best_python_version project_name roaming now r1 target_os w =
              (Inr (PStr (short_version v), info_val info), w))"
  using find_best_result_only_parsed [OF assms] find_best_exact [OF assms(1)]
  by blast

theorem resolution_depends_on_major_minor_witness:
  "parse_request ''3.12.1'' = Some (3, 12) \<and> parse_request ''3.12'' = Some (3, 12) \<and>
   map_of (available_versions ''linux'' None) (short_version (3, 12))
     = Some (''3.12.7'', Some ''20241016'') \<and>
   fst (find_best_python_version ''demo'' None ''2024-05-01T10:00:00'' ''3.12.1'' ''linux''
          empty_world) =
   fst (find_best_python_version ''demo'' None ''2024-05-01T10:00:00'' ''3.12'' ''linux''
          empty_world) \<and>
   find_best_python_version ''demo'' None ''2024-05-01T10:00:00'' ''3.12.1'' ''linux'' empty_world
     = (Inr (PStr ''3.12'', PInfo ''3.12.7'' (Some ''20241016'')), empty_world)"
proof -
  have p1: "parse_request ''3.12.1'' = Some (3, 12)"
    by code_simp
  have p2: "parse_request ''3.12'' = Some (3, 12)"
    by code_simp
  have k: "short_version (3, 12) = ''3.12''"
    by code_simp
  have m: "map_of (available_versions ''linux'' None) (short_version (3, 12))
             = Some (''3.12.7'', Some ''20241016'')"
    unfolding k by code_simp
  note t = resolution_depends_on_major_minor
             [OF p1 p2, of "''demo''" None "''2024-05-01T10:00:00''" "''linux''" empty_world]
  from t have same: "fst (find_best_python_version ''demo'' None ''2024-05-01T10:00:00''
                            ''3.12.1'' ''linux'' empty_world) =
                     fst (find_best_python_version ''demo'' None ''2024-05-01T10:00:00''
                            ''3.12'' ''linux'' empty_world)"
    by (rule conjunct1)
  from t m have "find_best_python_version ''demo'' None ''2024-05-01T10:00:00'' ''3.12.1''
                   ''linux'' empty_world
                 = (Inr (PStr (short_version (3, 12)),
                         info_val (''3.12.7'', Some ''20241016'')), empty_world)"
    by blast
  then have exact: "find_best_python_version ''demo'' None ''2024-05-01T10:00:00'' ''3.12.1''
                      ''linux'' empty_world
                    = (Inr (PStr ''3.12'', PInfo ''3.12.7'' (Some ''20241016'')), empty_world)"
    by (simp add: k info_val_def)
  from p1 p2 m same exact show ?thesis by blast
qed

text \<open>
  C1 fails on a catalog discovered from the local installation: the items are tried in
  descending order of the key as a string, where \<open>3.9\<close> comes before \<open>3.13\<close>. With
  runtimes 3.9 and 3.13 installed and 3.14 requested, the fallback is 3.9 although 3.13
  is in the catalog, is lower than the request and is greater than 3.9; the
  FallbackRecord written names 3.9 as the version used.
\<close>

theorem fallback_prefers_string_greatest:
  "fst (find_best_python_version ''demo''
          (Some [''cpython-3.9.18-windows-x86_64-none'', ''cpython-3.13.0-windows-x86_64-none''])
          ''2024-05-01T10:00:00'' ''3.14'' ''windows'' empty_world)
     = Inr (PStr ''3.9'', PInfo ''3.9.18'' None) \<and>
   map_of (available_versions ''windows''
          (Some [''cpython-3.9.18-windows-x86_64-none'', ''cpython-3.13.0-windows-x86_64-none'']))
       ''3.13'' = Some (''3.13.0'', None) \<and>
   parse_key ''3.13'' = Some (3, 13) \<and> is_lower (3, 13) (3, 14) \<and> is_lower (3, 9) (3, 13) \<and>
   files (snd (find_best_python_version ''demo''
          (Some [''cpython-3.9.18-windows-x86_64-none'', ''cpython-3.13.0-windows-x86_64-none''])
          ''2024-05-01T10:00:00'' ''3.14'' ''windows'' empty_world)) (fallback_path ''demo'')
     = Some (File ''3.14|3.9|2024-05-01T10:00:00'')"
  by code_simp

section \<open>Properties of the package assembly\<close>

lemma assemble_path:
  assumes "assemble project_name sc e name w = (Inr (Some zip_path), w')"
  shows "zip_path = ''packages/'' @ name \<and> path_exists w' zip_path"
  using assms unfolding assemble_def
  by (auto simp: path_exists_def Let_def split: sum.splits option.splits prod.splits bool.splits)

lemma length_str_nat_1: "n < 10 \<Longrightarrow> length (str_nat n) = 1"
  by (subst str_nat.simps) simp

lemma length_str_nat_2: "10 \<le> n \<Longrightarrow> n < 100 \<Longrightarrow> length (str_nat n) = 2"
  by (subst str_nat.simps) (simp add: length_str_nat_1)

lemma length_str_nat_3: "100 \<le> n \<Longrightarrow> n < 1000 \<Longrightarrow> length (str_nat n) = 3"
  by (subst str_nat.simps) (simp add: length_str_nat_2)

lemma length_str_nat_4: "1000 \<le> n \<Longrightarrow> n < 10000 \<Longrightarrow> length (str_nat n) = 4"
  by (subst str_nat.simps) (simp add: length_str_nat_3)

lemma length_zfill_2: "n < 100 \<Longrightarrow> length (zfill 2 (str_nat n)) = 2"
  by (cases "n < 10") (simp_all add: zfill_def length_str_nat_1 length_str_nat_2)

lemma str_nat_four_digits:
  assumes "1000 \<le> n" "n < 10000"
  shows "str_nat n = [digit_char (n div 1000), digit_char (n div 100 mod 10),
                      digit_char (n div 10 mod 10), digit_char (n mod 10)]"
proof -
  have e1: "n div 10 div 10 = n div 100"
    by (simp add: div_mult2_eq)
  have e2: "n div 100 div 10 = n div 1000"
    by (simp add: div_mult2_eq)
  from assms have g0: "\<not> n < 10" by simp
  from assms have g1: "\<not> n div 10 < 10"
    by (simp add: not_less less_eq_div_iff_mult_less_eq)
  from assms have g2: "\<not> n div 100 < 10"
    by (simp add: not_less less_eq_div_iff_mult_less_eq)
  from assms have g3: "n div 1000 < 10"
    by (simp add: div_less_iff_less_mult)
  have a: "str_nat n = str_nat (n div 10) @ [digit_char (n mod 10)]"
    by (subst str_nat.simps [of n]) (simp only: g0 if_False)
  have b: "str_nat (n div 10) = str_nat (n div 100) @ [digit_char (n div 10 mod 10)]"
    by (subst str_nat.simps [of "n div 10"]) (simp only: g1 if_False e1)
  have c: "str_nat (n div 100) = str_nat (n div 1000) @ [digit_char (n div 100 mod 10)]"
    by (subst str_nat.simps [of "n div 100"]) (simp only: g2 if_False e2)
  have d: "str_nat (n div 1000) = [digit_char (n div 1000)]"
    by (subst str_nat.simps [of "n div 1000"]) (simp only: g3 if_True)
  show ?thesis
    unfolding a b c d by simp
qed

lemma zfill_two_digits:
  assumes "n < 100"
  shows "zfill 2 (str_nat n) = [digit_char (n div 10), digit_char (n mod 10)]"
proof (cases "n < 10")
  case True
  have "str_nat n = [digit_char n]"
    by (subst str_nat.simps [of n]) (simp only: True if_True)
  with True show ?thesis by (simp add: zfill_def digit_char_def)
next
  case False
  from assms have g: "n div 10 < 10"
    by (simp add: div_less_iff_less_mult)
  have "str_nat n = str_nat (n div 10) @ [digit_char (n mod 10)]"
    by (subst str_nat.simps [of n]) (simp only: False if_False)
  moreover have "str_nat (n div 10) = [digit_char (n div 10)]"
    by (subst str_nat.simps [of "n div 10"]) (simp only: g if_True)
  ultimately show ?thesis by (simp add: zfill_def)
qed

lemma date_str_digits:
  assumes "1000 \<le> year" "year < 10000" "month < 100" "day < 100"
  shows "date_str (year, month, day) =
           [''0123456789'' ! (year div 1000), ''0123456789'' ! (year div 100 mod 10),
            ''0123456789'' ! (year div 10 mod 10), ''0123456789'' ! (year mod 10),
            ''0123456789'' ! (month div 10), ''0123456789'' ! (month mod 10),
            ''0123456789'' ! (day div 10), ''0123456789'' ! (day mod 10)]"
proof -
  have y: "zfill 4 (str_nat year) = [digit_char (year div 1000), digit_char (year div 100 mod 10),
                      digit_char (year div 10 mod 10), digit_char (year mod 10)]"
    by (simp add: zfill_def str_nat_four_digits [OF assms(1,2)])
  show ?thesis
    unfolding date_str_def prod.case y zfill_two_digits [OF assms(3)] zfill_two_digits [OF assms(4)]
    by (simp only: digit_char_def append_Cons append_Nil)
qed

lemma date_str_length:
  assumes "1000 \<le> year" "year < 10000" "month < 100" "day < 100"
  shows "length (date_str (year, month, day)) = 8"
  using assms by (simp add: date_str_def length_zfill_2) (simp add: zfill_def length_str_nat_4)

lemma archive_name_of_package:
  assumes "create_deployment_package project_name sc e w = (Inr (Some zip_path), w')"
  shows "\<exists>version. get_project_version e = Inr version \<and>
           zip_path = ''packages/'' @ project_name @ ''-v'' @ version @ ''-''
                        @ date_str (today e) @ ''.zip'' \<and>
           path_exists w' zip_path"
proof (cases "get_project_version e")
  case (Inl x)
  with assms show ?thesis by (simp add: create_deployment_package_def)
next
  case (Inr version)
  obtain r w1 where a: "assemble project_name sc e (package_name project_name version (today e))
                          (w\<lparr>deploy_dir := []\<rparr>) = (r, w1)"
    by (cases "assemble project_name sc e (package_name project_name version (today e))
                 (w\<lparr>deploy_dir := []\<rparr>)") auto
  with assms Inr have r: "r = Inr (Some zip_path)" and w': "w' = w1\<lparr>deploy_dir := []\<rparr>"
    by (simp_all add: create_deployment_package_def)
  from assemble_path [OF a [unfolded r]] have
    z: "zip_path = ''packages/'' @ package_name project_name version (today e)"
    and ex: "path_exists w1 zip_path"
    by blast+
  from ex w' have "path_exists w' zip_path"
    by (simp add: path_exists_def)
  moreover from z have "zip_path = ''packages/'' @ project_name @ ''-v'' @ version @ ''-''
                          @ date_str (today e) @ ''.zip''"
    by (simp add: package_name_def)
  ultimately show ?thesis using Inr by blast
qed

lemma get_project_version_cases:
  "(map_of (project_dir e) ''pyproject.toml'' = None \<longrightarrow> get_project_version e = Inr ''0.1.0'') \<and>
   (\<forall>c data. map_of (project_dir e) ''pyproject.toml'' = Some (File c) \<and> pyproject e = Some data \<longrightarrow>
      (map_of data ''project'' = None \<longrightarrow> get_project_version e = Inr ''0.1.0'') \<and>
      (\<forall>project. map_of data ''project'' = Some (Table project) \<longrightarrow>
         (map_of project ''version'' = None \<longrightarrow> get_project_version e = Inr ''0.1.0'') \<and>
         (\<forall>v. map_of project ''version'' = Some v \<longrightarrow> get_project_version e = Inr v)))"
  by (simp add: get_project_version_def)

text \<open>
  C9. Whenever \<open>create_deployment_package\<close> produces an archive, its path is
  \<open>packages/{project}-v{version}-{date}.zip\<close>, where \<open>version\<close> is what
  \<open>get_project_version\<close> returns: \<open>0.1.0\<close> when there is no manifest, no \<open>project\<close>
  table or no \<open>version\<close> key in it, the value of \<open>project.version\<close> otherwise. The date
  part is, for every date with a four-digit year, the four decimal digits of the year,
  the two of the month and the two of the day, each with leading zeros.
\<close>

theorem archive_named_from_version_and_date:
  assumes "create_deployment_package project_name sc e w = (Inr (Some zip_path), w')"
  shows "\<exists>version.
           get_project_version e = Inr version \<and>
           zip_path = ''packages/'' @ project_name @ ''-v'' @ version @ ''-''
                        @ date_str (today e) @ ''.zip'' \<and>
           path_exists w' zip_path \<and>
           (map_of (project_dir e) ''pyproject.toml'' = None \<longrightarrow> version = ''0.1.0'') \<and>
           (\<forall>c data. map_of (project_dir e) ''pyproject.toml'' = Some (File c) \<and>
                     pyproject e = Some data \<longrightarrow>
              (map_of data ''project'' = None \<longrightarrow> version = ''0.1.0'') \<and>
              (\<forall>project. map_of data ''project'' = Some (Table project) \<longrightarrow>
                 (map_of project ''version'' = None \<longrightarrow> version = ''0.1.0'') \<and>
                 (\<forall>v. map_of project ''version'' = Some v \<longrightarrow> version = v))) \<and>
           (\<forall>year month day. today e = (year, month, day) \<and> 1000 \<le> year \<and> year < 10000 \<and>
                              month < 100 \<and> day < 100 \<longrightarrow>
              date_str (today e) =
                [''0123456789'' ! (year div 1000), ''0123456789'' ! (year div 100 mod 10),
                 ''0123456789'' ! (year div 10 mod 10), ''0123456789'' ! (year mod 10),
                 ''0123456789'' ! (month div 10), ''0123456789'' ! (month mod 10),
                 ''0123456789'' ! (day div 10), ''0123456789'' ! (day mod 10)])"
proof -
  from archive_name_of_package [OF assms] obtain version where
    v: "get_project_version e = Inr version"
    and z: "zip_path = ''packages/'' @ project_name @ ''-v'' @ version @ ''-''
                         @ date_str (today e) @ ''.zip''"
    and ex: "path_exists w' zip_path"
    by blast
  have d: "\<forall>year month day. today e = (year, month, day) \<and> 1000 \<le> year \<and> year < 10000 \<and>
                              month < 100 \<and> day < 100 \<longrightarrow>
              date_str (today e) =
                [''0123456789'' ! (year div 1000), ''0123456789'' ! (year div 100 mod 10),
                 ''0123456789'' ! (year div 10 mod 10), ''0123456789'' ! (year mod 10),
                 ''0123456789'' ! (month div 10), ''0123456789'' ! (month mod 10),
                 ''0123456789'' ! (day div 10), ''0123456789'' ! (day mod 10)]"
  proof (intro allI impI)
    fix year month day :: nat
    assume "today e = (year, month, day) \<and> 1000 \<le> year \<and> year < 10000 \<and>
            month < 100 \<and> day < 100"
    then show "date_str (today e) =
                [''0123456789'' ! (year div 1000), ''0123456789'' ! (year div 100 mod 10),
                 ''0123456789'' ! (year div 10 mod 10), ''0123456789'' ! (year mod 10),
                 ''0123456789'' ! (month div 10), ''0123456789'' ! (month mod 10),
                 ''0123456789'' ! (day div 10), ''0123456789'' ! (day mod 10)]"
      using date_str_digits [of year month day] by simp
  qed
  from get_project_version_cases [of e] v have
    r1: "map_of (project_dir e) ''pyproject.toml'' = None \<longrightarrow> version = ''0.1.0''"
    by auto
  from get_project_version_cases [of e] v have
    r2: "\<forall>c data. map_of (project_dir e) ''pyproject.toml'' = Some (File c) \<and>
                  pyproject e = Some data \<longrightarrow>
           (map_of data ''project'' = None \<longrightarrow> version = ''0.1.0'') \<and>
           (\<forall>project. map_of data ''project'' = Some (Table project) \<longrightarrow>
              (map_of project ''version'' = None \<longrightarrow> version = ''0.1.0'') \<and>
              (\<forall>v. map_of project ''version'' = Some v \<longrightarrow> version = v))"
    by auto
  show ?thesis
    by (rule exI [of _ version]) (intro conjI v z ex r1 r2 d)
qed

theorem archive_named_from_version_and_date_witness:
  "fst (create_deployment_package ''demo'' linux_server example_env empty_world)
     = Inr (Some ''packages/demo-v2.1.0-20240501.zip'') \<and>
   get_project_version example_env = Inr ''2.1.0'' \<and>
   date_str (today example_env) = ''20240501'' \<and>
   path_exists (snd (create_deployment_package ''demo'' linux_server example_env empty_world))
     ''packages/demo-v2.1.0-20240501.zip'' \<and>
   fst (create_deployment_package ''demo'' linux_server example_env_no_manifest empty_world)
     = Inr (Some ''packages/demo-v0.1.0-20240501.zip'') \<and>
   get_project_version example_env_no_manifest = Inr ''0.1.0''"
proof -
  let ?r = "create_deployment_package ''demo'' linux_server example_env empty_world"
  let ?s = "create_deployment_package ''demo'' linux_server example_env_no_manifest empty_world"
  have a: "fst ?r = Inr (Some ''packages/demo-v2.1.0-20240501.zip'')"
    by code_simp
  have b: "fst ?s = Inr (Some ''packages/demo-v0.1.0-20240501.zip'')"
    by code_simp
  have td: "today example_env = (2024, 5, 1) \<and> (1000::nat) \<le> 2024 \<and> (2024::nat) < 10000 \<and>
            (5::nat) < 100 \<and> (1::nat) < 100"
    by (simp add: example_env_def)
  have m: "map_of (project_dir example_env) ''pyproject.toml'' = Some (File ''[project]'')"
    by code_simp
  have pp: "pyproject example_env
              = Some [(''project'', Table [(''name'', ''demo''), (''version'', ''2.1.0'')])]"
    by (simp add: example_env_def)
  have m0: "map_of (project_dir example_env_no_manifest) ''pyproject.toml'' = None"
    by code_simp
  from a have ra: "?r = (Inr (Some ''packages/demo-v2.1.0-20240501.zip''), snd ?r)"
    by (metis prod.collapse)
  from archive_named_from_version_and_date [OF ra] obtain version where
    v: "get_project_version example_env = Inr version"
    and ex: "path_exists (snd ?r) ''packages/demo-v2.1.0-20240501.zip''"
    and dd: "\<forall>year month day. today example_env = (year, month, day) \<and> 1000 \<le> year \<and>
                               year < 10000 \<and> month < 100 \<and> day < 100 \<longrightarrow>
               date_str (today example_env) =
                 [''0123456789'' ! (year div 1000), ''0123456789'' ! (year div 100 mod 10),
                  ''0123456789'' ! (year div 10 mod 10), ''0123456789'' ! (year mod 10),
                  ''0123456789'' ! (month div 10), ''0123456789'' ! (month mod 10),
                  ''0123456789'' ! (day div 10), ''0123456789'' ! (day mod 10)]"
    and c: "\<forall>c data. map_of (project_dir example_env) ''pyproject.toml'' = Some (File c) \<and>
                     pyproject example_env = Some data \<longrightarrow>
              (map_of data ''project'' = None \<longrightarrow> version = ''0.1.0'') \<and>
              (\<forall>project. map_of data ''project'' = Some (Table project) \<longrightarrow>
                 (map_of project ''version'' = None \<longrightarrow> version = ''0.1.0'') \<and>
                 (\<forall>v. map_of project ''version'' = Some v \<longrightarrow> version = v))"
    by (elim exE conjE) (rule that)
  from dd [THEN spec, THEN spec, THEN spec, THEN mp, OF td]
  have d: "date_str (today example_env) = ''20240501''"
    by simp
  from c [THEN spec, THEN spec, THEN mp, OF conjI [OF m pp]]
  have "version = ''2.1.0''"
    by simp
  with v have v1: "get_project_version example_env = Inr ''2.1.0''"
    by simp
  from b have rb: "?s = (Inr (Some ''packages/demo-v0.1.0-20240501.zip''), snd ?s)"
    by (metis prod.collapse)
  from archive_named_from_version_and_date [OF rb] obtain version0 where
    v0: "get_project_version example_env_no_manifest = Inr version0"
    and d0: "map_of (project_dir example_env_no_manifest) ''pyproject.toml'' = None
               \<longrightarrow> version0 = ''0.1.0''"
    by (elim exE conjE) (rule that)
  from d0 m0 have "version0 = ''0.1.0''"
    by (rule mp)
  with v0 have v2: "get_project_version example_env_no_manifest = Inr ''0.1.0''"
    by simp
  show ?thesis
    by (intro conjI a v1 d ex b v2)
qed

text \<open>
  C3 fails for a Windows target. Python 3.14 is requested and only 3.13 is installed:
  the runtime is staged as \<open>python-3.13\<close>, and \<open>setup.bat\<close> is written from the
  requested version, so it starts \<open>python-3.14\python.exe\<close>. (For Linux the version
  is read back from the staged directory.)
\<close>

theorem windows_setup_names_requested_version:
  "fst (create_deployment_package ''demo'' windows_server example_env empty_world)
     = Inr (Some ''packages/demo-v2.1.0-20240501.zip'') \<and>
   files (snd (create_deployment_package ''demo'' windows_server example_env empty_world))
       ''packages/demo-v2.1.0-20240501.zip''
     = Some (File (example_pack
         [(''main.py'', ''print(1)''),
          (''pyproject.toml'', ''[project]''),
          (''.python-version'', text_lines [''3.14'']),
          (''uv.exe'', ''MZ-uv''),
          (''python-3.13/python.exe'', ''PE-python''),
          (''setup.bat'',
           text_lines
             [''@echo off'',
              ''echo Installation de l'environnement Python...'',
              ''uv.exe venv --python python-3.14'' @ [CHR 0x5C] @ ''python.exe'',
              ''echo Environnement cree avec succes!'']),
          (''run.bat'', run_bat)]))"
  by code_simp

section \<open>Properties of the artifact cache\<close>

lemma copy_to_package_True:
  assumes "copy_to_package src name w = (Inr True, w')"
  shows "\<exists>c. files w src = Some (File c) \<and> w' = stage name (File c) w"
  using assms by (auto simp: copy_to_package_def split: option.splits node.splits)

lemma files_stage [simp]: "files (stage name n w) = files w"
  by (simp add: stage_def)

lemma fetched_stage [simp]: "fetched (stage name n w) = fetched w"
  by (simp add: stage_def)

lemma download_uv_again:
  assumes "download_uv sc e w = (Inr True, w1)"
  shows "\<exists>uv_filename uv_url c.
           uv_target sc = Inr (uv_filename, uv_url) \<and>
           files w1 (uv_cache_path uv_filename (target_os_of sc)) = Some (File c) \<and>
           download_uv sc e2 w1 = (Inr True, stage uv_filename (File c) w1)"
proof -
  obtain uv_filename uv_url where t: "uv_target sc = Inr (uv_filename, uv_url)"
  proof (cases "uv_target sc")
    case (Inl x)
    with assms show ?thesis by (simp add: download_uv_def)
  next
    case (Inr p)
    with that show ?thesis by (cases p) auto
  qed
  let ?cache = "uv_cache_path uv_filename (target_os_of sc)"
  from assms t obtain w0 where c: "copy_to_package ?cache uv_filename w0 = (Inr True, w1)"
    by (auto simp: download_uv_def Let_def split: if_splits prod.splits sum.splits bool.splits)
  from copy_to_package_True [OF c] obtain c' where
    f: "files w0 ?cache = Some (File c')" and w1: "w1 = stage uv_filename (File c') w0"
    by blast
  from f w1 have f1: "files w1 ?cache = Some (File c')" by simp
  then have "download_uv sc e2 w1 = (Inr True, stage uv_filename (File c') w1)"
    using t by (simp add: download_uv_def path_exists_def copy_to_package_def)
  with t f1 show ?thesis by blast
qed

lemma python_source_Inr:
  "python_source w p = Inr ms \<Longrightarrow> path_exists w p"
  by (auto simp: python_source_def path_exists_def split: option.splits node.splits if_splits)

lemma cached_python_again:
  assumes "cached_python_linux e best_version version_info w = (Inr (Some ms), w1)"
  shows "path_exists w1 (python_cache_path best_version) \<and>
         cached_python_linux e2 best_version version_info w1 = (Inr (Some ms), w1)"
proof -
  obtain full_version build_date where
    u: "unpack_info version_info = Inr (full_version, build_date)"
  proof (cases "unpack_info version_info")
    case (Inl x)
    with assms show ?thesis by (simp add: cached_python_linux_def)
  next
    case (Inr p)
    with that show ?thesis by (cases p) auto
  qed
  from assms u have s: "python_source w1 (python_cache_path best_version) = Inr ms"
    by (auto simp: cached_python_linux_def Let_def map_sum_def
          split: if_splits prod.splits sum.splits bool.splits)
  from python_source_Inr [OF s] s u show ?thesis
    by (simp add: cached_python_linux_def)
qed


text \<open>
  C7. After a call of \<open>download_uv\<close> that returned \<open>True\<close> the cache path holds a
  file, and a second call, whatever the network has become, returns \<open>True\<close> with no
  further request and the same files in the working directory. After the Linux branch
  of \<open>copy_python\<close> has produced a runtime tree the cache directory exists, and running
  it again for the same version gives the same tree and leaves the state as it is.
\<close>

theorem cache_hit_needs_no_download:
  "(download_uv sc e w = (Inr True, w1) \<longrightarrow>
      (\<exists>uv_filename uv_url w2.
          uv_target sc = Inr (uv_filename, uv_url) \<and>
          path_exists w1 (uv_cache_path uv_filename (target_os_of sc)) \<and>
          download_uv sc e2 w1 = (Inr True, w2) \<and>
          fetched w2 = fetched w1 \<and> files w2 = files w1)) \<and>
   (cached_python_linux e best_version version_info w = (Inr (Some ms), w1') \<longrightarrow>
      path_exists w1' (python_cache_path best_version) \<and>
      cached_python_linux e2 best_version version_info w1' = (Inr (Some ms), w1'))"
proof (intro conjI impI)
  assume "download_uv sc e w = (Inr True, w1)"
  from download_uv_again [OF this, of e2] obtain uv_filename uv_url c where
    "uv_target sc = Inr (uv_filename, uv_url)"
    "files w1 (uv_cache_path uv_filename (target_os_of sc)) = Some (File c)"
    "download_uv sc e2 w1 = (Inr True, stage uv_filename (File c) w1)"
    by blast
  then show "\<exists>uv_filename uv_url w2.
          uv_target sc = Inr (uv_filename, uv_url) \<and>
          path_exists w1 (uv_cache_path uv_filename (target_os_of sc)) \<and>
          download_uv sc e2 w1 = (Inr True, w2) \<and>
          fetched w2 = fetched w1 \<and> files w2 = files w1"
    by (intro exI [of _ uv_filename] exI [of _ uv_url]
          exI [of _ "stage uv_filename (File c) w1"]) (simp add: path_exists_def)
next
  assume a: "cached_python_linux e best_version version_info w = (Inr (Some ms), w1')"
  from cached_python_again [OF a, of e2]
  show "path_exists w1' (python_cache_path best_version)"
    and "cached_python_linux e2 best_version version_info w1' = (Inr (Some ms), w1')"
    by blast+
qed

theorem cache_hit_needs_no_download_witness:
  "fst (download_uv linux_server example_env empty_world) = Inr True \<and>
   fetched (snd (download_uv linux_server example_env empty_world)) = [linux_uv_url] \<and>
   fst (download_uv linux_server example_env_offline
          (snd (download_uv linux_server example_env empty_world))) = Inr True \<and>
   fetched (snd (download_uv linux_server example_env_offline
                   (snd (download_uv linux_server example_env empty_world)))) = [linux_uv_url] \<and>
   fst (cached_python_linux example_env ''3.13'' (PInfo ''3.13.0'' (Some ''20241016''))
          empty_world) = Inr (Some [(''bin/python3'', ''ELF-python'')]) \<and>
   cached_python_linux example_env_offline ''3.13'' (PInfo ''3.13.0'' (Some ''20241016''))
     (snd (cached_python_linux example_env ''3.13'' (PInfo ''3.13.0'' (Some ''20241016''))
             empty_world))
     = (Inr (Some [(''bin/python3'', ''ELF-python'')]),
        snd (cached_python_linux example_env ''3.13'' (PInfo ''3.13.0'' (Some ''20241016''))
               empty_world))"
proof -
  let ?u = "download_uv linux_server example_env empty_world"
  let ?p = "cached_python_linux example_env ''3.13'' (PInfo ''3.13.0'' (Some ''20241016''))
              empty_world"
  have u1: "fst ?u = Inr True"
    by code_simp
  have u2: "fetched (snd ?u) = [linux_uv_url]"
    by code_simp
  have p1: "fst ?p = Inr (Some [(''bin/python3'', ''ELF-python'')])"
    by code_simp
  from u1 have u: "?u = (Inr True, snd ?u)"
    by (metis prod.collapse)
  from p1 have p: "?p = (Inr (Some [(''bin/python3'', ''ELF-python'')]), snd ?p)"
    by (metis prod.collapse)
  note t = cache_hit_needs_no_download
             [of linux_server example_env empty_world "snd ?u" example_env_offline
                 "''3.13''" "PInfo ''3.13.0'' (Some ''20241016'')"
                 "[(''bin/python3'', ''ELF-python'')]" "snd ?p"]
  from t u obtain w2 where
    "download_uv linux_server example_env_offline (snd ?u) = (Inr True, w2)"
    "fetched w2 = fetched (snd ?u)"
    by blast
  then have again: "fst (download_uv linux_server example_env_offline (snd ?u)) = Inr True"
    and same: "fetched (snd (download_uv linux_server example_env_offline (snd ?u)))
                 = [linux_uv_url]"
    using u2 by simp_all
  from t p have "cached_python_linux example_env_offline ''3.13''
                   (PInfo ''3.13.0'' (Some ''20241016'')) (snd ?p)
                 = (Inr (Some [(''bin/python3'', ''ELF-python'')]), snd ?p)"
    by blast
  with u1 u2 again same p1 show ?thesis by blast
qed

section \<open>Properties of the FallbackRecord\<close>

lemma uv_target_filename:
  "uv_target sc = Inr (uv_filename, uv_url) \<Longrightarrow> uv_filename = ''uv.exe'' \<or> uv_filename = ''uv''"
  by (auto simp: uv_target_def split: if_splits option.splits)

lemma uv_cache_path_distinct:
  "uv_target sc = Inr (uv_filename, uv_url) \<Longrightarrow> fallback_path pn \<noteq> uv_cache_path uv_filename t"
  by (auto dest!: uv_target_filename simp: uv_cache_path_def fallback_path_def)

lemma urlretrieve_files:
  "urlretrieve e url path w = (r, w1) \<Longrightarrow> p \<noteq> path \<Longrightarrow> files w1 p = files w p"
  by (auto simp: urlretrieve_def Let_def split: option.splits)

lemma extractall_files: "p \<noteq> path \<Longrightarrow> files (extractall ms path w) p = files w p"
  by (simp add: extractall_def)

lemma unlink_files: "p \<noteq> path \<Longrightarrow> files (unlink path w) p = files w p"
  by (simp add: unlink_def)

lemma rename_files: "p \<noteq> src \<Longrightarrow> p \<noteq> dst \<Longrightarrow> files (rename src dst w) p = files w p"
  by (simp add: rename_def split: option.splits)

lemma fetch_uv_windows_files:
  assumes "fetch_uv_windows e uv_url target_os uv_cache w = (r, w1)"
    and "fallback_path pn \<noteq> uv_cache"
  shows "files w1 (fallback_path pn) = files w (fallback_path pn)"
proof -
  obtain r0 w0 where u: "urlretrieve e uv_url (''cache/uv_'' @ target_os @ ''.zip'') w = (r0, w0)"
    by (cases "urlretrieve e uv_url (''cache/uv_'' @ target_os @ ''.zip'') w") auto
  have k: "files w0 (fallback_path pn) = files w (fallback_path pn)"
    by (rule urlretrieve_files [OF u]) (simp add: fallback_path_def)
  from assms u k show ?thesis
    by (auto simp: fetch_uv_windows_def Let_def rename_files unlink_files fallback_path_def
          split: sum.splits option.splits)
qed

lemma fetch_uv_linux_files:
  assumes "fetch_uv_linux e uv_url target_os uv_cache w = (r, w1)"
    and "fallback_path pn \<noteq> uv_cache"
  shows "files w1 (fallback_path pn) = files w (fallback_path pn)"
proof -
  obtain r0 w0 where u: "urlretrieve e uv_url (''cache/uv_'' @ target_os @ ''.tar.gz'') w = (r0, w0)"
    by (cases "urlretrieve e uv_url (''cache/uv_'' @ target_os @ ''.tar.gz'') w") auto
  have k: "files w0 (fallback_path pn) = files w (fallback_path pn)"
    by (rule urlretrieve_files [OF u]) (simp add: fallback_path_def)
  from assms u k show ?thesis
    by (auto simp: fetch_uv_linux_def Let_def extractall_files unlink_files fallback_path_def
          split: sum.splits option.splits list.splits)
qed

lemma copy_to_package_files: "copy_to_package src name w = (r, w1) \<Longrightarrow> files w1 = files w"
  by (auto simp: copy_to_package_def split: option.splits node.splits)

lemma download_uv_files:
  assumes "download_uv sc e w = (r, w1)"
  shows "files w1 (fallback_path pn) = files w (fallback_path pn)"
proof (cases "uv_target sc")
  case (Inl x)
  with assms show ?thesis by (simp add: download_uv_def)
next
  case (Inr p)
  obtain uv_filename uv_url where p: "p = (uv_filename, uv_url)" by (cases p)
  let ?cache = "uv_cache_path uv_filename (target_os_of sc)"
  from Inr p have d: "fallback_path pn \<noteq> ?cache"
    by (simp add: uv_cache_path_distinct)
  show ?thesis
  proof (cases "path_exists w ?cache")
    case True
    with assms Inr p show ?thesis
      by (auto simp: download_uv_def dest: copy_to_package_files)
  next
    case False
    let ?f = "if target_os_of sc = ''windows''
              then fetch_uv_windows e uv_url (target_os_of sc) ?cache w
              else fetch_uv_linux e uv_url (target_os_of sc) ?cache w"
    obtain r0 w0 where f: "?f = (r0, w0)" by (cases ?f) auto
    then have k: "files w0 (fallback_path pn) = files w (fallback_path pn)"
      using fetch_uv_windows_files [OF _ d] fetch_uv_linux_files [OF _ d]
      by (auto split: if_splits)
    from assms Inr p False f have "(r, w1) = (r0, w0) \<or> copy_to_package ?cache uv_filename w0 = (r, w1)"
      by (auto simp: download_uv_def Let_def split: sum.splits bool.splits)
    with k show ?thesis
      by (auto dest: copy_to_package_files)
  qed
qed


lemma find_best_keeps_record:
  assumes "find_best_python_version pn ro now r t w = (res, w1)"
    and "files w (fallback_path pn) \<noteq> None"
  shows "files w1 (fallback_path pn) \<noteq> None"
  using assms
  by (auto simp: find_best_python_version_def Let_def write_text_def
        split: option.splits sum.splits if_splits prod.splits)

lemma fst_find_best_any_state:
  "fst (find_best_python_version pn ro now r t w) =
   fst (find_best_python_version pn' ro now' r t w')"
  by (simp add: find_best_python_version_def Let_def split: option.splits sum.splits)

lemma download_python_files:
  assumes "download_python e url best_version w = (ok, w1)"
  shows "files w1 (fallback_path pn) = files w (fallback_path pn)"
proof -
  let ?tar = "''cache/python-'' @ best_version @ ''-linux.tar.gz''"
  obtain r0 w0 where u: "urlretrieve e url ?tar w = (r0, w0)"
    by (cases "urlretrieve e url ?tar w") auto
  have k: "files w0 (fallback_path pn) = files w (fallback_path pn)"
    by (rule urlretrieve_files [OF u]) (simp add: fallback_path_def)
  from assms u k show ?thesis
    by (auto simp: download_python_def Let_def extractall_files unlink_files fallback_path_def
          python_cache_path_def split: sum.splits)
qed

lemma cached_python_linux_files:
  assumes "cached_python_linux e best_version version_info w = (res, w1)"
  shows "files w1 (fallback_path pn) = files w (fallback_path pn)"
proof (cases "unpack_info version_info")
  case (Inl x)
  with assms show ?thesis by (simp add: cached_python_linux_def)
next
  case (Inr p)
  obtain full_version build_date where p: "p = (full_version, build_date)" by (cases p)
  show ?thesis
  proof (cases "path_exists w (python_cache_path best_version)")
    case True
    with assms Inr p show ?thesis by (simp add: cached_python_linux_def)
  next
    case False
    obtain ok w0 where d: "download_python e (python_url full_version build_date) best_version w
                             = (ok, w0)"
      by (cases "download_python e (python_url full_version build_date) best_version w") auto
    from assms Inr p False d have "w1 = w0"
      by (cases ok) (simp_all add: cached_python_linux_def)
    with download_python_files [OF d] show ?thesis by simp
  qed
qed

lemma copytree_to_package_files: "copytree_to_package ms name w = Inr w1 \<Longrightarrow> files w1 = files w"
  by (auto simp: copytree_to_package_def split: if_splits)

lemma read_fallback_record:
  assumes "files w (fallback_path pn) = Some (File txt)"
    and "split_on CHR ''|'' txt = [r, used, timestamp]"
  shows "read_fallback pn python_version w = Inr r"
  using assms by (simp add: read_fallback_def)

text \<open>What the part of \<open>copy_python\<close> after the resolution does to the record.\<close>

lemma copy_python_record:
  assumes c: "copy_python pn sc e python_version w = (res, w2)"
    and rd: "read_fallback pn python_version w = Inr r"
    and ex: "files w (fallback_path pn) \<noteq> None"
  shows "files w2 (fallback_path pn) = None \<longleftrightarrow>
           res = Inr True \<and>
           (\<exists>info. fst (find_best_python_version pn (map_option (map fst) (uv_roaming e))
                          (now_iso e) r (target_os_of sc) w) = Inr (PStr r, info))"
proof -
  let ?fb = "fallback_path pn"
  let ?find = "find_best_python_version pn (map_option (map fst) (uv_roaming e)) (now_iso e) r
                 (target_os_of sc) w"
  obtain fr w1 where f: "?find = (fr, w1)" by (cases ?find) auto
  from find_best_keeps_record [OF f ex] have ex1: "files w1 ?fb \<noteq> None" .
  show ?thesis
  proof (cases fr)
    case (Inl x)
    with c rd f ex1 show ?thesis by (auto simp: copy_python_def)
  next
    case (Inr p)
    obtain best version_info where p: "p = (best, version_info)" by (cases p)
    show ?thesis
    proof (cases "falsy best")
      case True
      with c rd f Inr p ex1 show ?thesis by (auto simp: copy_python_def)
    next
      case False
      show ?thesis
      proof (cases best)
        case PNone
        with False show ?thesis by (simp add: falsy_def)
      next
        case (PInfo a b)
        with c rd f Inr p ex1 False show ?thesis by (auto simp: copy_python_def)
      next
        case (PStr best_version)
        let ?loc = "if target_os_of sc = ''windows''
                    then (local_python_windows e best_version, w1)
                    else cached_python_linux e best_version version_info w1"
        obtain lr w2' where l: "?loc = (lr, w2')" by (cases ?loc) auto
        then have k: "files w2' ?fb = files w1 ?fb"
          using cached_python_linux_files [of e best_version version_info w1 lr w2' pn]
          by (auto split: if_splits)
        with ex1 have ex2: "files w2' ?fb \<noteq> None" by simp
        from c rd f Inr p False PStr l have
          c': "(res, w2) =
                 (case lr of
                    Inl x \<Rightarrow> (Inl x, w2')
                  | Inr None \<Rightarrow> (Inr False, w2')
                  | Inr (Some ms) \<Rightarrow>
                      (case copytree_to_package ms (''python-'' @ best_version) w2' of
                         Inl x \<Rightarrow> (Inl x, w2')
                       | Inr w3 \<Rightarrow>
                           (Inr True,
                            if best_version = r \<and> path_exists w3 ?fb
                            then unlink ?fb w3 else w3)))"
          by (simp add: copy_python_def Let_def)
        show ?thesis
        proof (cases lr)
          case (Inl x)
          with c' ex2 show ?thesis by auto
        next
          case (Inr found)
          show ?thesis
          proof (cases found)
            case None
            with c' Inr ex2 show ?thesis by auto
          next
            case (Some ms)
            show ?thesis
            proof (cases "copytree_to_package ms (''python-'' @ best_version) w2'")
              case (Inl x)
              with c' Inr Some ex2 show ?thesis by auto
            next
              case (Inr w3)
              from copytree_to_package_files [OF Inr] ex2 have ex3: "path_exists w3 ?fb"
                by (simp add: path_exists_def)
              from c' \<open>lr = Inr found\<close> Some Inr ex3 have
                "res = Inr True" and "w2 = (if best_version = r then unlink ?fb w3 else w3)"
                by simp_all
              with ex3 f \<open>fr = Inr p\<close> p PStr show ?thesis
                by (auto simp: unlink_def path_exists_def)
            qed
          qed
        qed
      qed
    qed
  qed
qed

lemma copy_python_original:
  assumes "read_fallback pn python_version w = Inr r"
  shows "copy_python pn sc e python_version w = copy_python pn sc e r w"
proof -
  from assms have "read_fallback pn r w = Inr r"
    by (auto simp: read_fallback_def split: option.splits node.splits list.splits)
  with assms show ?thesis by (simp add: copy_python_def)
qed


lemma copy_project_files_files:
  "copy_project_files names project w = Inr w1 \<Longrightarrow> files w1 = files w"
  by (induction names arbitrary: w) (auto split: option.splits node.splits)

lemma copy_project_folders_files:
  "copy_project_folders names project w = Inr w1 \<Longrightarrow> files w1 = files w"
  by (induction names arbitrary: w) (auto split: option.splits node.splits)

lemma create_batch_scripts_files:
  "create_batch_scripts pn sc python_version w = (res, w1) \<Longrightarrow> files w1 = files w"
  by (auto simp: create_batch_scripts_def Let_def split: if_splits sum.splits)

lemma assemble_record:
  assumes a: "assemble pn sc e name w = (res, w')"
    and rec: "files w (fallback_path pn) = Some (File txt)"
    and sp: "split_on CHR ''|'' txt = [r, used, timestamp]"
    and gone: "files w' (fallback_path pn) = None"
  shows "\<exists>info. fst (find_best_python_version pn (map_option (map fst) (uv_roaming e))
                       (now_iso e) r (target_os_of sc) w) = Inr (PStr r, info)"
proof -
  let ?fb = "fallback_path pn"
  from a gone rec obtain wa where
    fa: "copy_project_files files_to_copy (project_dir e) w = Inr wa"
    by (cases "copy_project_files files_to_copy (project_dir e) w") (auto simp: assemble_def)
  from a gone rec fa copy_project_files_files [OF fa] obtain wb where
    fb: "copy_project_folders folders_to_copy (project_dir e) wa = Inr wb"
    by (cases "copy_project_folders folders_to_copy (project_dir e) wa")
       (auto simp: assemble_def)
  have kb: "files wb ?fb = Some (File txt)"
    using copy_project_files_files [OF fa] copy_project_folders_files [OF fb] rec by simp
  obtain ur w1 where u: "download_uv sc e wb = (ur, w1)"
    by (cases "download_uv sc e wb") auto
  from download_uv_files [OF u, of pn] kb have k1: "files w1 ?fb = Some (File txt)"
    by simp
  from a fa fb u gone k1 have ur: "ur = Inr True"
    by (auto simp: assemble_def split: sum.splits bool.splits)
  from a fa fb u ur gone k1 obtain python_version where
    pv: "get_python_version sc e = Inr python_version"
    by (cases "get_python_version sc e") (auto simp: assemble_def)
  obtain cr w2 where c: "copy_python pn sc e python_version w1 = (cr, w2)"
    by (cases "copy_python pn sc e python_version w1") auto
  have "files w2 ?fb = None"
  proof (rule ccontr)
    assume n: "files w2 ?fb \<noteq> None"
    obtain br w3 where b: "create_batch_scripts pn sc python_version w2 = (br, w3)"
      by (cases "create_batch_scripts pn sc python_version w2") auto
    from create_batch_scripts_files [OF b] n have "files w3 ?fb \<noteq> None" by simp
    with a fa fb u ur pv c b n gone show False
      by (auto simp: assemble_def Let_def fallback_path_def split: sum.splits bool.splits)
  qed
  moreover from k1 have "files w1 ?fb \<noteq> None" by simp
  ultimately have "\<exists>info. fst (find_best_python_version pn (map_option (map fst) (uv_roaming e))
                       (now_iso e) r (target_os_of sc) w1) = Inr (PStr r, info)"
    using copy_python_record [OF c read_fallback_record [OF k1 sp]] by blast
  then show ?thesis
    using fst_find_best_any_state [of pn _ _ r _ w1 pn _ w] by metis
qed

lemma create_deployment_package_record:
  assumes a: "create_deployment_package pn sc e w = (res, w')"
    and rec: "files w (fallback_path pn) = Some (File txt)"
    and sp: "split_on CHR ''|'' txt = [r, used, timestamp]"
    and gone: "files w' (fallback_path pn) = None"
  shows "\<exists>info. fst (find_best_python_version pn (map_option (map fst) (uv_roaming e))
                       (now_iso e) r (target_os_of sc) w) = Inr (PStr r, info)"
proof (cases "get_project_version e")
  case (Inl x)
  with a rec gone show ?thesis by (simp add: create_deployment_package_def)
next
  case (Inr version)
  let ?w0 = "w\<lparr>deploy_dir := []\<rparr>"
  obtain ar w1 where as: "assemble pn sc e (package_name pn version (today e)) ?w0 = (ar, w1)"
    by (cases "assemble pn sc e (package_name pn version (today e)) ?w0") auto
  with a Inr have "w' = w1\<lparr>deploy_dir := []\<rparr>"
    by (simp add: create_deployment_package_def)
  with gone have g1: "files w1 (fallback_path pn) = None" by simp
  from rec have r0: "files ?w0 (fallback_path pn) = Some (File txt)" by simp
  from assemble_record [OF as r0 sp g1]
  show ?thesis
    using fst_find_best_any_state [of pn _ _ r _ ?w0 pn _ w] by metis
qed

lemma split_on_one: "split_on sep s = [p] \<Longrightarrow> s = p"
  using split_on_nonempty [of sep]
  by (induction s arbitrary: p) (auto split: if_splits list.splits)

lemma split_on_two: "split_on sep s = [p1, p2] \<Longrightarrow> s = p1 @ sep # p2"
proof (induction s arbitrary: p1)
  case Nil
  then show ?case by simp
next
  case (Cons c cs)
  show ?case
  proof (cases "c = sep")
    case True
    with Cons.prems have "p1 = []" and "split_on sep cs = [p2]" by simp_all
    with True split_on_one [of sep cs p2] show ?thesis by simp
  next
    case False
    with Cons.prems obtain p where "split_on sep cs = [p, p2]" and "p1 = c # p"
      by (auto split: list.splits)
    with Cons.IH [of p] show ?thesis by simp
  qed
qed

lemma py_int_Some: "py_int s = Some a \<Longrightarrow> s \<noteq> [] \<and> list_all is_digit s \<and> a = int_of_digits s"
  by (auto simp: py_int_def split: if_splits)

lemma parse_request_of_key:
  assumes "parse_key k = Some kv"
  shows "parse_request k = Some kv"
proof -
  from assms obtain p1 p2 a b where
    sp: "split_on CHR ''.'' k = [p1, p2]" and a: "py_int p1 = Some a" and b: "py_int p2 = Some b"
    and kv: "kv = (a, b)"
    by (auto simp: parse_key_def split: list.splits option.splits)
  from py_int_Some [OF a] py_int_Some [OF b] have
    d1: "p1 \<noteq> []" "list_all is_digit p1" "a = int_of_digits p1"
    and d2: "p2 \<noteq> []" "list_all is_digit p2" "b = int_of_digits p2"
    by simp_all
  from split_on_two [OF sp] have k: "k = p1 @ CHR ''.'' # p2" .
  from d1(2) have t1: "takeWhile is_digit k = p1"
    unfolding k by (simp add: takeWhile_append2 list_all_iff is_digit_def)
  from d1(2) have t2: "dropWhile is_digit k = CHR ''.'' # p2"
    unfolding k by (simp add: dropWhile_append2 list_all_iff is_digit_def)
  from d2(2) have "\<forall>x\<in>set p2. is_digit x"
    by (simp add: list_all_iff)
  then have t3: "takeWhile is_digit p2 = p2"
    by (simp only: takeWhile_eq_all_conv)
  from d1(1) d2(1) show ?thesis
    unfolding parse_request_def match_request_def t1 t2
    by (simp add: t3 kv d1(3) d2(3))
qed

lemma first_lower_Some:
  "first_lower r xs = Inr (Some (k, i)) \<Longrightarrow> \<exists>kv. parse_key k = Some kv \<and> is_lower kv r"
  by (induction xs) (auto split: option.splits if_splits)

lemma resolved_to_request_is_exact:
  assumes f: "fst (find_best_python_version pn ro now r t w) = Inr (PStr r, info)"
    and p: "parse_request r = Some v"
  shows "\<exists>i. map_of (available_versions t ro) (short_version v) = Some i"
proof (cases "map_of (available_versions t ro) (short_version v)")
  case (Some i)
  then show ?thesis by blast
next
  case None
  with f p obtain i where "first_lower v (sorted_items_reverse (available_versions t ro))
                             = Inr (Some (r, i))"
    by (auto simp: find_best_python_version_def Let_def
          split: sum.splits option.splits if_splits prod.splits)
  from first_lower_Some [OF this] obtain kv where "parse_key r = Some kv" and l: "is_lower kv v"
    by blast
  from parse_request_of_key [OF this(1)] p have "kv = v" by simp
  with l show ?thesis by (simp add: is_lower_def)
qed

text \<open>
  C4 (as the code has it). Let the FallbackRecord file of the project exist, with
  original request \<open>r\<close>. Then \<open>copy_python\<close> does what it does for the request \<open>r\<close>,
  whatever version it is given. When the resolution of \<open>r\<close> returns \<open>r\<close> itself and
  \<open>copy_python\<close> returns \<open>True\<close> (the runtime was obtained and staged), the record is
  gone afterwards. When the record is gone after \<open>copy_python\<close>, it returned \<open>True\<close>
  and the requested version is in the catalog: the record is never removed after a
  fallback, a failed download or a failed copy. And when the record is gone after
  \<open>create_deployment_package\<close>, the requested version is in the catalog: no other step
  removes the file.
\<close>

theorem fallback_record_retry_and_clearing:
  assumes "files w (fallback_path project_name) = Some (File txt)"
    and "split_on CHR ''|'' txt = [r, used, timestamp]"
  shows "copy_python project_name sc e python_version w = copy_python project_name sc e r w \<and>
         (\<forall>res w2. copy_python project_name sc e python_version w = (res, w2) \<longrightarrow>
            (res = Inr True \<and>
             (\<exists>info. fst (find_best_python_version project_name
                             (map_option (map fst) (uv_roaming e)) (now_iso e) r
                             (target_os_of sc) w) = Inr (PStr r, info))
               \<longrightarrow> files w2 (fallback_path project_name) = None) \<and>
            (files w2 (fallback_path project_name) = None \<longrightarrow>
               res = Inr True \<and>
               (\<forall>v. parse_request r = Some v \<longrightarrow>
                  (\<exists>i. map_of (available_versions (target_os_of sc)
                                 (map_option (map fst) (uv_roaming e)))
                          (short_version v) = Some i)))) \<and>
         (\<forall>res w'. create_deployment_package project_name sc e w = (res, w') \<and>
                    files w' (fallback_path project_name) = None \<longrightarrow>
            (\<forall>v. parse_request r = Some v \<longrightarrow>
               (\<exists>i. map_of (available_versions (target_os_of sc)
                              (map_option (map fst) (uv_roaming e)))
                       (short_version v) = Some i)))"
proof -
  let ?fb = "fallback_path project_name"
  let ?ro = "map_option (map fst) (uv_roaming e)"
  let ?yields = "\<exists>info. fst (find_best_python_version project_name ?ro (now_iso e) r
                               (target_os_of sc) w) = Inr (PStr r, info)"
  let ?in_catalog = "\<forall>v. parse_request r = Some v \<longrightarrow>
                       (\<exists>i. map_of (available_versions (target_os_of sc) ?ro)
                               (short_version v) = Some i)"
  note rd = read_fallback_record [OF assms, of python_version]
  have exact: "?yields \<Longrightarrow> ?in_catalog"
    using resolved_to_request_is_exact by blast
  have one: "copy_python project_name sc e python_version w = copy_python project_name sc e r w"
    by (rule copy_python_original [OF rd])
  have two: "\<forall>res w2. copy_python project_name sc e python_version w = (res, w2) \<longrightarrow>
               (res = Inr True \<and> ?yields \<longrightarrow> files w2 ?fb = None) \<and>
               (files w2 ?fb = None \<longrightarrow> res = Inr True \<and> ?in_catalog)"
  proof (rule allI, rule allI, rule impI)
    fix res w2
    assume "copy_python project_name sc e python_version w = (res, w2)"
    from copy_python_record [OF this rd] assms(1)
    have iff: "files w2 ?fb = None \<longleftrightarrow> res = Inr True \<and> ?yields"
      by simp
    show "(res = Inr True \<and> ?yields \<longrightarrow> files w2 ?fb = None) \<and>
          (files w2 ?fb = None \<longrightarrow> res = Inr True \<and> ?in_catalog)"
    proof (intro conjI impI)
      assume "res = Inr True \<and> ?yields"
      with iff show "files w2 ?fb = None" by (rule iffD2)
    next
      assume "files w2 ?fb = None"
      with iff have "res = Inr True \<and> ?yields" by (rule iffD1)
      then show "res = Inr True" by (rule conjunct1)
    next
      assume "files w2 ?fb = None"
      with iff have "res = Inr True \<and> ?yields" by (rule iffD1)
      then have ?yields by (rule conjunct2)
      then show ?in_catalog by (rule exact)
    qed
  qed
  have three: "\<forall>res w'. create_deployment_package project_name sc e w = (res, w') \<and>
                 files w' ?fb = None \<longrightarrow> ?in_catalog"
  proof (rule allI, rule allI, rule impI)
    fix res w'
    assume "create_deployment_package project_name sc e w = (res, w') \<and> files w' ?fb = None"
    then have "?yields"
      using create_deployment_package_record [OF _ assms] by blast
    then show ?in_catalog by (rule exact)
  qed
  show ?thesis
    by (intro conjI one two three)
qed

theorem fallback_record_retry_and_clearing_witness:
  "files example_recorded (fallback_path ''demo'')
     = Some (File ''3.13|3.12|2024-04-01T09:00:00'') \<and>
   split_on CHR ''|'' ''3.13|3.12|2024-04-01T09:00:00''
     = [''3.13'', ''3.12'', ''2024-04-01T09:00:00''] \<and>
   copy_python ''demo'' linux_server example_env ''3.14'' example_recorded
     = copy_python ''demo'' linux_server example_env ''3.13'' example_recorded \<and>
   fst (copy_python ''demo'' linux_server example_env ''3.14'' example_recorded) = Inr True \<and>
   fst (find_best_python_version ''demo'' (map_option (map fst) (uv_roaming example_env))
          (now_iso example_env) ''3.13'' (target_os_of linux_server) example_recorded)
     = Inr (PStr ''3.13'', PInfo ''3.13.0'' (Some ''20241016'')) \<and>
   files (snd (copy_python ''demo'' linux_server example_env ''3.14'' example_recorded))
     (fallback_path ''demo'') = None"
proof -
  let ?c = "copy_python ''demo'' linux_server example_env ''3.14'' example_recorded"
  have f: "files example_recorded (fallback_path ''demo'')
             = Some (File ''3.13|3.12|2024-04-01T09:00:00'')"
    by code_simp
  have sp: "split_on CHR ''|'' ''3.13|3.12|2024-04-01T09:00:00''
              = [''3.13'', ''3.12'', ''2024-04-01T09:00:00'']"
    by code_simp
  have t: "fst ?c = Inr True"
    by code_simp
  have b: "fst (find_best_python_version ''demo'' (map_option (map fst) (uv_roaming example_env))
                  (now_iso example_env) ''3.13'' (target_os_of linux_server) example_recorded)
             = Inr (PStr ''3.13'', PInfo ''3.13.0'' (Some ''20241016''))"
    by code_simp
  note th = fallback_record_retry_and_clearing
              [OF f sp, of linux_server example_env "''3.14''"]
  from th have same: "?c = copy_python ''demo'' linux_server example_env ''3.13'' example_recorded"
    by (rule conjunct1)
  from t have rc: "?c = (Inr True, snd ?c)"
    by (metis prod.collapse)
  from b have y: "\<exists>info. fst (find_best_python_version ''demo''
                                 (map_option (map fst) (uv_roaming example_env))
                                 (now_iso example_env) ''3.13'' (target_os_of linux_server)
                                 example_recorded) = Inr (PStr ''3.13'', info)"
    by (rule exI)
  from th [THEN conjunct2, THEN conjunct1, THEN spec, THEN spec, THEN mp, OF rc,
           THEN conjunct1, THEN mp, OF conjI [OF refl y]]
  have gone: "files (snd ?c) (fallback_path ''demo'') = None" .
  show ?thesis
    by (intro conjI f sp same t b gone)
qed

text \<open>
  Line 334 compares the short version that was resolved with the original request as
  it was written. A record whose request has a patch component is kept although the
  requested version is in the catalog and its runtime was staged, which is not what the
  comment at line 333 describes. The theorem above leaves this case open.
\<close>

lemma record_with_patch_component_is_kept:
  "fst (copy_python ''demo'' linux_server example_env ''3.13.0'' example_recorded_patch)
     = Inr True \<and>
   fst (find_best_python_version ''demo'' (map_option (map fst) (uv_roaming example_env))
          (now_iso example_env) ''3.13.0'' (target_os_of linux_server) example_recorded_patch)
     = Inr (PStr ''3.13'', PInfo ''3.13.0'' (Some ''20241016'')) \<and>
   files (snd (copy_python ''demo'' linux_server example_env ''3.13.0'' example_recorded_patch))
     (fallback_path ''demo'') = Some (File ''3.13.0|3.12|2024-04-01T09:00:00'')"
  by code_simp

text \<open>
  C4 (as stated) fails: with the record \<open>3.13|3.12|...\<close> on a Linux target the
  resolution of 3.13 yields exactly 3.13, but the download of the runtime fails, the
  assembly returns \<open>None\<close> and the record is still there.
\<close>

theorem record_survives_failed_download:
  "files example_recorded (fallback_path ''demo'')
     = Some (File ''3.13|3.12|2024-04-01T09:00:00'') \<and>
   fst (find_best_python_version ''demo'' (map_option (map fst) (uv_roaming example_env_offline))
          (now_iso example_env_offline) ''3.13'' (target_os_of linux_server) example_recorded)
     = Inr (PStr ''3.13'', PInfo ''3.13.0'' (Some ''20241016'')) \<and>
   fst (create_deployment_package ''demo'' linux_server example_env_offline example_recorded)
     = Inr None \<and>
   files (snd (create_deployment_package ''demo'' linux_server example_env_offline
                 example_recorded)) (fallback_path ''demo'')
     = Some (File ''3.13|3.12|2024-04-01T09:00:00'')"
  by code_simp

section \<open>Properties of the loop over the servers\<close>

lemma new_deployer_configured:
  assumes "project_exists" and "servers cfg = Some ss" and "srv \<in> fst ` set ss"
  shows "\<exists>sc. new_deployer cfg project_exists srv = Constructed sc"
proof -
  from assms(3) obtain v where "map_of ss srv = Some v"
    by (metis domD dom_map_of_conv_image_fst)
  with assms(1,2) show ?thesis
    by (simp add: new_deployer_def load_server_config_def)
qed

lemma new_deployer_no_servers:
  "servers cfg = None \<Longrightarrow> new_deployer cfg project_exists srv = Raised KeyError"
  by (simp add: new_deployer_def load_server_config_def)

lemma new_deployer_no_exit:
  assumes "project_exists" and "\<forall>ss. servers cfg = Some ss \<longrightarrow> srv \<in> fst ` set ss"
  shows "new_deployer cfg project_exists srv \<noteq> SystemExit"
proof (cases "servers cfg")
  case None
  then show ?thesis by (simp add: new_deployer_no_servers)
next
  case (Some ss)
  with assms new_deployer_configured [of project_exists cfg ss srv] show ?thesis by auto
qed

lemma deploy_each_completes:
  assumes "\<forall>srv \<in> set targets. new_deployer cfg project_exists srv \<noteq> SystemExit"
  shows "\<exists>failed' succeeded'.
           deploy_each run_deployer cfg project_exists targets failed succeeded s
             = (Some (failed', succeeded'),
                foldl (after_target run_deployer cfg project_exists) s targets) \<and>
           mset succeeded' + mset failed' = mset succeeded + mset failed + mset targets"
  using assms
proof (induction targets arbitrary: failed succeeded s)
  case Nil
  then show ?case by simp
next
  case (Cons srv rest)
  then have rest: "\<forall>srv \<in> set rest. new_deployer cfg project_exists srv \<noteq> SystemExit"
    and this_one: "new_deployer cfg project_exists srv \<noteq> SystemExit"
    by simp_all
  note IH = Cons.IH [OF rest]
  show ?case
  proof (cases "new_deployer cfg project_exists srv")
    case SystemExit
    with this_one show ?thesis by simp
  next
    case (Raised x)
    with IH [of "failed @ [srv]" succeeded s] show ?thesis
      by (auto simp: after_target_def)
  next
    case (Constructed sc)
    obtain r s1 where run: "run_deployer srv sc s = (r, s1)"
      by (cases "run_deployer srv sc s") auto
    show ?thesis
    proof (cases r)
      case (Inl x)
      with Constructed run IH [of "failed @ [srv]" succeeded s1] show ?thesis
        by (auto simp: after_target_def)
    next
      case (Inr ok)
      show ?thesis
      proof (cases ok)
        case True
        with Inr Constructed run IH [of failed "succeeded @ [srv]" s1] show ?thesis
          by (auto simp: after_target_def)
      next
        case False
        with Inr Constructed run IH [of "failed @ [srv]" succeeded s1] show ?thesis
          by (auto simp: after_target_def)
      qed
    qed
  qed
qed

text \<open>
  C10 (as the code has it). When the project directory exists and every target is a
  configured server, the loop goes through all targets in order: the final state is
  that of running each one after the other, whatever the earlier ones returned or
  raised, and the succeeded and failed lists together hold exactly the targets. For
  more than one target the summary is printed and it lists both lists that are not
  empty.
\<close>

theorem every_configured_target_is_attempted:
  assumes "project_exists"
    and "\<forall>ss. servers cfg = Some ss \<longrightarrow> set servers_to_deploy \<subseteq> fst ` set ss"
  shows "\<exists>succeeded failed.
           deploy_servers run_deployer cfg project_exists servers_to_deploy s
             = (Completed succeeded failed (summary servers_to_deploy succeeded failed),
                foldl (after_target run_deployer cfg project_exists) s servers_to_deploy) \<and>
           mset succeeded + mset failed = mset servers_to_deploy \<and>
           (1 < length servers_to_deploy \<longrightarrow>
              summary servers_to_deploy succeeded failed
                = (if succeeded \<noteq> [] then [Reussi succeeded] else [])
                  @ (if failed \<noteq> [] then [Echoue failed] else []) \<and>
              summary servers_to_deploy succeeded failed \<noteq> [])"
proof -
  have "\<forall>srv \<in> set servers_to_deploy. new_deployer cfg project_exists srv \<noteq> SystemExit"
  proof
    fix srv
    assume "srv \<in> set servers_to_deploy"
    with assms(2) have "\<forall>ss. servers cfg = Some ss \<longrightarrow> srv \<in> fst ` set ss"
      by blast
    with assms(1) show "new_deployer cfg project_exists srv \<noteq> SystemExit"
      by (rule new_deployer_no_exit)
  qed
  from deploy_each_completes [OF this, of run_deployer "[]" "[]" s]
  obtain failed succeeded where
    d: "deploy_each run_deployer cfg project_exists servers_to_deploy [] [] s
          = (Some (failed, succeeded),
             foldl (after_target run_deployer cfg project_exists) s servers_to_deploy)"
    and m: "mset succeeded + mset failed = mset servers_to_deploy"
    by auto
  from d have r: "deploy_servers run_deployer cfg project_exists servers_to_deploy s
             = (Completed succeeded failed (summary servers_to_deploy succeeded failed),
                foldl (after_target run_deployer cfg project_exists) s servers_to_deploy)"
    by (simp add: deploy_servers_def)
  have su: "1 < length servers_to_deploy \<longrightarrow>
              summary servers_to_deploy succeeded failed
                = (if succeeded \<noteq> [] then [Reussi succeeded] else [])
                  @ (if failed \<noteq> [] then [Echoue failed] else []) \<and>
              summary servers_to_deploy succeeded failed \<noteq> []"
  proof
    assume l: "1 < length servers_to_deploy"
    then have "servers_to_deploy \<noteq> []" by auto
    with m have "succeeded \<noteq> [] \<or> failed \<noteq> []" by auto
    with l show "summary servers_to_deploy succeeded failed
                = (if succeeded \<noteq> [] then [Reussi succeeded] else [])
                  @ (if failed \<noteq> [] then [Echoue failed] else []) \<and>
              summary servers_to_deploy succeeded failed \<noteq> []"
      by (auto simp: summary_def)
  qed
  from r m su show ?thesis by blast
qed

theorem every_configured_target_is_attempted_witness:
  "deploy_servers example_run example_config True [''a'', ''b'', ''c''] []
     = (Completed [''a'', ''c''] [''b''] [Reussi [''a'', ''c''], Echoue [''b'']],
        [''a'', ''b'', ''c''])"
proof -
  have c: "\<forall>ss. servers example_config = Some ss \<longrightarrow> set [''a'', ''b'', ''c''] \<subseteq> fst ` set ss"
    by (simp add: example_config_def)
  from every_configured_target_is_attempted [OF TrueI c, of example_run "[]"]
  obtain succeeded failed where
    "deploy_servers example_run example_config True [''a'', ''b'', ''c''] []
       = (Completed succeeded failed (summary [''a'', ''b'', ''c''] succeeded failed),
          foldl (after_target example_run example_config True) [] [''a'', ''b'', ''c''])"
    by blast
  moreover have "deploy_servers example_run example_config True [''a'', ''b'', ''c''] []
     = (Completed [''a'', ''c''] [''b''] [Reussi [''a'', ''c''], Echoue [''b'']],
        [''a'', ''b'', ''c''])"
    by code_simp
  ultimately show ?thesis by simp
qed

text \<open>
  C10 (as stated) fails for a list with a name that is not a configured server: the
  constructor calls \<open>sys.exit(1)\<close>, which \<open>except Exception\<close> does not catch. Server
  \<open>c\<close> is never attempted and there is no summary.
\<close>

theorem unknown_server_stops_the_loop:
  "deploy_servers example_run example_config True [''a'', ''typo'', ''c''] []
     = (Exited, [''a''])"
  by code_simp

end
